theory Spec2Isabelle
  imports Main
begin

section \<open>The service-setup saga of nanobox (processor/service/setup.go)\<close>

text \<open>
  The theory embeds \<^verbatim>\<open>processor/service/setup.go\<close>: the constructor
  \<^verbatim>\<open>serviceSetupFunc\<close>, the saga \<^verbatim>\<open>Process\<close> with its eight steps, the
  deferred cleanup \<^verbatim>\<open>clean\<close>, and the derivation of environment variables in
  \<^verbatim>\<open>addEnvVars\<close>.

  Go strings are byte lists (\<^typ>\<open>string\<close>). A Go \<^verbatim>\<open>error\<close> is represented by its
  message; a result of type \<^verbatim>\<open>error\<close> is an \<^typ>\<open>string option\<close> with \<^term>\<open>None\<close>
  for \<^verbatim>\<open>nil\<close>. A function returning \<^verbatim>\<open>(v, err)\<close> returns a pair, as in Go.
\<close>

subsection \<open>Strings\<close>

type_synonym error = string

text \<open>
  \<^verbatim>\<open>strings.ToUpper\<close> on ASCII text: the letters \<^verbatim>\<open>a\<close> to \<^verbatim>\<open>z\<close> (codes 97 to 122)
  lose bit 5, every other byte is kept. Go maps letters outside ASCII as well; names
  with such letters are outside this model.
\<close>

definition upper_char :: "char \<Rightarrow> char" where
  "upper_char c =
     (if 97 \<le> (of_char c :: nat) \<and> (of_char c :: nat) \<le> 122
      then Char (digit0 c) (digit1 c) (digit2 c) (digit3 c) (digit4 c) False (digit6 c) (digit7 c)
      else c)"

definition ToUpper :: "string \<Rightarrow> string" where
  "ToUpper s = map upper_char s"

text \<open>\<^verbatim>\<open>strings.Replace(s, ".", "_", -1)\<close>: every dot becomes an underscore.\<close>

definition Replace_dots :: "string \<Rightarrow> string" where
  "Replace_dots s = map (\<lambda>c. if c = CHR ''.'' then CHR ''_'' else c) s"

text \<open>\<^verbatim>\<open>strings.Join(elems, sep)\<close>.\<close>

fun Join :: "string list \<Rightarrow> string \<Rightarrow> string" where
  "Join [] sep = []"
| "Join [x] sep = x"
| "Join (x # y # ys) sep = x @ sep @ Join (y # ys) sep"

subsection \<open>Data model\<close>

text \<open>
  \<^verbatim>\<open>models.Service\<close> and its plan, with the fields that \<^verbatim>\<open>setup.go\<close> reads and
  writes. \<^verbatim>\<open>models.EnvVars\<close> is a \<^verbatim>\<open>map[string]string\<close>.
\<close>

record User =
  Username :: string
  Password :: string

record Plan =
  Users :: "User list"
  DefaultUser :: string

record Service =
  ID :: string
  Name :: string
  ExternalIP :: string
  InternalIP :: string
  State :: string
  Type :: string
  Plan :: Plan

type_synonym EnvVars = "string \<rightharpoonup> string"

text \<open>
  A \<^verbatim>\<open>net.IP\<close> is represented by the text that its \<^verbatim>\<open>String\<close> method returns; the
  nil address prints as \<^verbatim>\<open><nil>\<close>.
\<close>

type_synonym IP = string

definition nil_IP :: IP where
  "nil_IP = ''<nil>''"

text \<open>
  \<^verbatim>\<open>processor.ProcessControl\<close>: the request metadata and the nesting depth of the
  output. Reading a key that a Go map does not hold gives the empty string.
\<close>

record ProcessControl =
  Meta :: "string \<rightharpoonup> string"
  DisplayLevel :: int

definition meta_get :: "ProcessControl \<Rightarrow> string \<Rightarrow> string" where
  "meta_get control k = (case Meta control k of None \<Rightarrow> [] | Some v \<Rightarrow> v)"

record ContainerConfig =
  cfg_Name :: string
  cfg_Image :: string
  cfg_Network :: string
  cfg_IP :: string

text \<open>
  The compensating closures that the saga pushes, one constructor for each
  \<^verbatim>\<open>func() error\<close> literal of the source. Four of them read fields of the saga when
  they are called; the third one captured the local variable \<^verbatim>\<open>container\<close> and
  carries its identifier.
\<close>

datatype cleanFunc =
    ReturnLocalIP
  | ReturnGlobalIP
  | RemoveContainer string
  | RemoveGlobalIP
  | RemoveNatMapping

text \<open>
  The struct \<^verbatim>\<open>serviceSetup\<close>. Of the container only its identifier is used, so the
  field \<open>container\<close> holds \<^verbatim>\<open>container.ID\<close>.
\<close>

record serviceSetup =
  control :: ProcessControl
  service :: Service
  localIP :: IP
  globalIP :: IP
  container :: string
  plan :: string
  fail :: bool
  cleanFuncs :: "cleanFunc list"

subsection \<open>The collaborators\<close>

text \<open>What \<^verbatim>\<open>data.Put\<close> is given: a service record or the table of variables.\<close>

datatype stored = StoredService Service | StoredEnvVars EnvVars

text \<open>
  The calls that leave the saga, in the order in which they are made. \<open>EvDisplay\<close> and
  \<open>EvInfo\<close> are the two output hooks of the control; the other events are calls to
  the store (\<^verbatim>\<open>data\<close>), the container engine (\<^verbatim>\<open>docker\<close>, \<^verbatim>\<open>util.Exec\<close>), the address
  pool (\<^verbatim>\<open>ip_control\<close>) and the network provider (\<^verbatim>\<open>provider\<close>).
\<close>

datatype event =
    EvDisplay string
  | EvInfo string
  | EvDataGet string string
  | EvDataPut string string stored
  | EvImagePull string
  | EvReserveLocal
  | EvReserveGlobal
  | EvReturnIP IP
  | EvCreateContainer ContainerConfig
  | EvContainerRemove string
  | EvAddIP string
  | EvRemoveIP string
  | EvAddNat string string
  | EvRemoveNat string string
  | EvExec string string string

text \<open>
  The collaborators are not part of \<^verbatim>\<open>setup.go\<close>; a \<open>world\<close> fixes what each of
  their calls answers during one run of the saga. \<open>data_Get_service\<close> is given the
  record that \<^verbatim>\<open>data.Get\<close> fills and returns it as the call leaves it;
  \<open>data_Get_env\<close> returns the table that the call leaves in the empty map it was
  given. \<open>plan_payload\<close> stands for the boxfile lookup followed by
  \<^verbatim>\<open>json.Marshal\<close>, \<open>Unmarshal_Plan\<close> for \<^verbatim>\<open>json.Unmarshal\<close> into the plan of the
  service, and \<open>RandomString w i n\<close> for the answer of the \<open>i\<close>-th call of
  \<^verbatim>\<open>util.RandomString(n)\<close>.
\<close>

record world =
  AppName :: string
  data_Get_service :: "string \<Rightarrow> string \<Rightarrow> Service \<Rightarrow> error option \<times> Service"
  data_Get_env :: "string \<Rightarrow> string \<Rightarrow> error option \<times> EnvVars"
  data_Put :: "string \<Rightarrow> string \<Rightarrow> stored \<Rightarrow> error option"
  ImagePull :: "string \<Rightarrow> error option"
  ReserveLocal :: "IP \<times> error option"
  ReserveGlobal :: "IP \<times> error option"
  ReturnIP :: "IP \<Rightarrow> error option"
  CreateContainer :: "ContainerConfig \<Rightarrow> string \<times> error option"
  ContainerRemove :: "string \<Rightarrow> error option"
  AddIP :: "string \<Rightarrow> error option"
  RemoveIP :: "string \<Rightarrow> error option"
  AddNat :: "string \<Rightarrow> string \<Rightarrow> error option"
  RemoveNat :: "string \<Rightarrow> string \<Rightarrow> error option"
  plan_payload :: "string \<Rightarrow> string \<Rightarrow> string"
  Exec :: "string \<Rightarrow> string \<Rightarrow> string \<Rightarrow> string \<times> error option"
  Unmarshal_Plan :: "string \<Rightarrow> Plan \<Rightarrow> error option \<times> Plan"
  RandomString :: "nat \<Rightarrow> nat \<Rightarrow> string"

subsection \<open>Construction\<close>

definition zero_Service :: Service where
  "zero_Service =
     \<lparr>ID = [], Name = [], ExternalIP = [], InternalIP = [], State = [], Type = [],
      Plan = \<lparr>Users = [], DefaultUser = []\<rparr>\<rparr>"

text \<open>
  \<^verbatim>\<open>serviceSetupFunc\<close>. \<^verbatim>\<open>control.Meta\<close> is a Go map, so the label that the function
  stores is seen by the caller too: the first component of the result is the control
  as the caller holds it after the call, the second one is the error or the new saga.
\<close>

definition serviceSetupFunc :: "ProcessControl \<Rightarrow> ProcessControl \<times> (error + serviceSetup)" where
  "serviceSetupFunc ctl =
     (if meta_get ctl ''name'' = [] \<or> meta_get ctl ''image'' = []
      then (ctl, Inl ''missing image or name'')
      else
        let ctl' = (if meta_get ctl ''label'' = []
                    then ctl\<lparr>Meta := (Meta ctl)(''label'' \<mapsto> meta_get ctl ''name'')\<rparr>
                    else ctl)
        in (ctl', Inr \<lparr>control = ctl', service = zero_Service, localIP = nil_IP,
                       globalIP = nil_IP, container = [], plan = [], fail = False,
                       cleanFuncs = []\<rparr>))"

subsection \<open>Cleanup\<close>

text \<open>One call of a pushed closure: the call it makes and the error it returns.\<close>

fun call_cleanFunc :: "world \<Rightarrow> serviceSetup \<Rightarrow> cleanFunc \<Rightarrow> event \<times> error option" where
  "call_cleanFunc w s ReturnLocalIP = (EvReturnIP (localIP s), ReturnIP w (localIP s))"
| "call_cleanFunc w s ReturnGlobalIP = (EvReturnIP (globalIP s), ReturnIP w (globalIP s))"
| "call_cleanFunc w s (RemoveContainer cid) = (EvContainerRemove cid, ContainerRemove w cid)"
| "call_cleanFunc w s RemoveGlobalIP = (EvRemoveIP (globalIP s), RemoveIP w (globalIP s))"
| "call_cleanFunc w s RemoveNatMapping =
     (EvRemoveNat (globalIP s) (localIP s), RemoveNat w (globalIP s) (localIP s))"

text \<open>The \<^verbatim>\<open>range\<close> loop of \<^verbatim>\<open>clean\<close>, which returns at the first error.\<close>

fun clean_loop :: "world \<Rightarrow> serviceSetup \<Rightarrow> cleanFunc list \<Rightarrow> event list \<times> error option" where
  "clean_loop w s [] = ([], None)"
| "clean_loop w s (cleanF # rest) =
     (case call_cleanFunc w s cleanF of
        (ev, Some err) \<Rightarrow> ([ev], Some err)
      | (ev, None) \<Rightarrow> (case clean_loop w s rest of (evs, r) \<Rightarrow> (ev # evs, r)))"

definition clean :: "world \<Rightarrow> serviceSetup \<Rightarrow> event list \<times> error option" where
  "clean w s = (if \<not> fail s then ([], None) else clean_loop w s (cleanFuncs s))"

subsection \<open>The steps\<close>

text \<open>
  Every step takes the saga and returns the saga as the step leaves it, the calls it
  made and its result.
\<close>

type_synonym step = "serviceSetup \<Rightarrow> serviceSetup \<times> event list \<times> error option"

definition loadService :: "world \<Rightarrow> step" where
  "loadService w s =
     (let name = meta_get (control s) ''name'';
          (ignored, svc) = data_Get_service w (AppName w) name (service s);
          svc' = (if State svc = [] then svc\<lparr>State := ''initialized''\<rparr> else svc)
      in (s\<lparr>service := svc'\<rparr>, [EvDataGet (AppName w) name], None))"

definition downloadImage :: "world \<Rightarrow> step" where
  "downloadImage w s =
     (let image = meta_get (control s) ''image''
      in case ImagePull w image of
           Some err \<Rightarrow> (s, [EvImagePull image], Some err)
         | None \<Rightarrow> (s, [EvImagePull image], None))"

definition reserveIps :: "world \<Rightarrow> step" where
  "reserveIps w s =
     (let (lip, err) = ReserveLocal w;
          s1 = s\<lparr>localIP := lip\<rparr>
      in case err of
           Some e \<Rightarrow> (s1, [EvReserveLocal], Some e)
         | None \<Rightarrow>
             let s2 = s1\<lparr>cleanFuncs := cleanFuncs s1 @ [ReturnLocalIP]\<rparr>;
                 (gip, err') = ReserveGlobal w;
                 s3 = s2\<lparr>globalIP := gip\<rparr>
             in case err' of
                  Some e \<Rightarrow> (s3, [EvReserveLocal, EvReserveGlobal], Some e)
                | None \<Rightarrow>
                    (s3\<lparr>cleanFuncs := cleanFuncs s3 @ [ReturnGlobalIP]\<rparr>,
                     [EvReserveLocal, EvReserveGlobal], None))"

definition launchContainer :: "world \<Rightarrow> step" where
  "launchContainer w s =
     (let config = \<lparr>cfg_Name = ''nanobox-'' @ AppName w @ ''-'' @ meta_get (control s) ''name'',
                    cfg_Image = meta_get (control s) ''image'',
                    cfg_Network = ''virt'',
                    cfg_IP = localIP s\<rparr>;
          evs = [EvInfo ''Starting container...'', EvCreateContainer config];
          (cid, err) = CreateContainer w config
      in case err of
           Some e \<Rightarrow> (s, evs, Some e)
         | None \<Rightarrow>
             (s\<lparr>cleanFuncs := cleanFuncs s @ [RemoveContainer cid], container := cid\<rparr>,
              evs, None))"

definition attachNetwork :: "world \<Rightarrow> step" where
  "attachNetwork w s =
     (let label = ''Bridging container to host network...''
      in case AddIP w (globalIP s) of
           Some e \<Rightarrow> (s, [EvInfo label, EvAddIP (globalIP s)], Some e)
         | None \<Rightarrow>
             let s1 = s\<lparr>cleanFuncs := cleanFuncs s @ [RemoveGlobalIP]\<rparr>;
                 evs = [EvInfo label, EvAddIP (globalIP s), EvAddNat (globalIP s) (localIP s)]
             in case AddNat w (globalIP s) (localIP s) of
                  Some e \<Rightarrow> (s1, evs, Some e)
                | None \<Rightarrow> (s1\<lparr>cleanFuncs := cleanFuncs s1 @ [RemoveNatMapping]\<rparr>, evs, None))"

definition planService :: "world \<Rightarrow> step" where
  "planService w s =
     (let jsonPayload = plan_payload w (meta_get (control s) ''boxfile'')
                          (meta_get (control s) ''name'');
          evs = [EvInfo ''Gathering service requirements...'',
                 EvExec (container s) ''plan'' jsonPayload];
          (p, err) = Exec w (container s) ''plan'' jsonPayload
      in case err of
           Some e \<Rightarrow> (s, evs, Some e)
         | None \<Rightarrow> (s\<lparr>plan := p\<rparr>, evs, None))"

text \<open>The loop of \<^verbatim>\<open>persistService\<close> that gives user \<open>i\<close> a fresh password.\<close>

fun set_passwords :: "world \<Rightarrow> nat \<Rightarrow> User list \<Rightarrow> User list" where
  "set_passwords w i [] = []"
| "set_passwords w i (u # us) =
     u\<lparr>Password := RandomString w i 10\<rparr> # set_passwords w (Suc i) us"

definition persistService :: "world \<Rightarrow> step" where
  "persistService w s =
     (let name = meta_get (control s) ''name'';
          svc1 = (service s)\<lparr>ID := container s, Name := name, ExternalIP := globalIP s,
                              InternalIP := localIP s, State := ''planned'', Type := ''data''\<rparr>;
          (err, pl) = Unmarshal_Plan w (plan s) (Plan svc1)
      in case err of
           Some e \<Rightarrow> (s\<lparr>service := svc1\<lparr>Plan := pl\<rparr>\<rparr>, [], Some (''persistService:'' @ e))
         | None \<Rightarrow>
             let svc2 = svc1\<lparr>Plan := pl\<lparr>Users := set_passwords w 0 (Users pl)\<rparr>\<rparr>
             in (s\<lparr>service := svc2\<rparr>,
                 [EvDataPut (AppName w) name (StoredService svc2)],
                 data_Put w (AppName w) name (StoredService svc2)))"

subsection \<open>Environment variables\<close>

definition env_prefix :: "string \<Rightarrow> string" where
  "env_prefix name = ToUpper (Replace_dots name)"

text \<open>
  The \<^verbatim>\<open>range\<close> loop of \<^verbatim>\<open>addEnvVars\<close> over the users of the plan; it carries the
  table and the slice \<^verbatim>\<open>users\<close>.
\<close>

fun user_loop :: "string \<Rightarrow> string \<Rightarrow> User list \<Rightarrow> EnvVars \<times> string list \<Rightarrow> EnvVars \<times> string list" where
  "user_loop prefix dflt [] (envVars, users) = (envVars, users)"
| "user_loop prefix dflt (user # rest) (envVars, users) =
     (let users' = users @ [Username user];
          key = prefix @ ''_'' @ ToUpper (Username user) @ ''_PASS'';
          envVars1 = envVars(key \<mapsto> Password user);
          envVars2 = (if Username user = dflt
                      then envVars1(prefix @ ''_USER'' \<mapsto> Username user,
                                    prefix @ ''_PASS'' \<mapsto> Password user)
                      else envVars1)
      in user_loop prefix dflt rest (envVars2, users'))"

text \<open>What \<^verbatim>\<open>addEnvVars\<close> does to the table between reading and writing it.\<close>

definition project_env :: "Service \<Rightarrow> EnvVars \<Rightarrow> EnvVars" where
  "project_env svc envVars =
     (let prefix = env_prefix (Name svc);
          envVars1 = envVars(prefix @ ''_HOST'' \<mapsto> InternalIP svc);
          (envVars2, users) =
             user_loop prefix (DefaultUser (Plan svc)) (Users (Plan svc)) (envVars1, [])
      in if length users > 0
         then envVars2(prefix @ ''_USERS'' \<mapsto> Join users '' '')
         else envVars2)"

definition addEnvVars :: "world \<Rightarrow> step" where
  "addEnvVars w s =
     (let bucket = AppName w @ ''_meta'';
          (ignored, envVars0) = data_Get_env w bucket ''env'';
          envVars = project_env (service s) envVars0
      in (s, [EvDataGet bucket ''env'', EvDataPut bucket ''env'' (StoredEnvVars envVars)],
          data_Put w bucket ''env'' (StoredEnvVars envVars)))"

subsection \<open>The saga\<close>

text \<open>
  \<^verbatim>\<open>Process\<close> runs its steps with one pattern,
  \<^verbatim>\<open>if err := self.step(); err != nil { self.fail = true; return err }\<close>,
  which \<open>run_steps\<close> applies to a list of steps.
\<close>

fun run_steps :: "step list \<Rightarrow> step" where
  "run_steps [] s = (s, [], None)"
| "run_steps (f # fs) s =
     (case f s of
        (s', evs, Some err) \<Rightarrow> (s'\<lparr>fail := True\<rparr>, evs, Some err)
      | (s', evs, None) \<Rightarrow>
          (case run_steps fs s' of (s'', evs', r) \<Rightarrow> (s'', evs @ evs', r)))"

text \<open>The body of \<^verbatim>\<open>Process\<close> after the header, up to its \<^verbatim>\<open>return\<close>.\<close>

definition Process_body :: "world \<Rightarrow> step" where
  "Process_body w s =
     (case loadService w s of
        (s1, evs, Some err) \<Rightarrow> (s1\<lparr>fail := True\<rparr>, evs, Some err)
      | (s1, evs, None) \<Rightarrow>
          if State (service s1) \<noteq> ''initialized'' then (s1, evs, None)
          else
            (case run_steps [downloadImage w, reserveIps w, launchContainer w,
                             attachNetwork w, planService w, persistService w,
                             addEnvVars w] s1 of
               (s2, evs', r) \<Rightarrow> (s2, evs @ evs', r)))"

text \<open>
  \<^verbatim>\<open>Process\<close>: the header, the body, and the deferred \<^verbatim>\<open>self.clean()\<close>, which runs
  when the body has returned. The result of \<^verbatim>\<open>Process\<close> is unnamed, so it is the value
  of the \<^verbatim>\<open>return\<close> statement that was reached; what the deferred call returns is
  dropped by the \<^verbatim>\<open>defer\<close> statement.
\<close>

definition Process :: "world \<Rightarrow> step" where
  "Process w s =
     (let header = ''Launching '' @ meta_get (control s) ''label'' @ ''...'';
          (s', evs, r) = Process_body w s;
          (cleanup, dropped) = clean w s'
      in (s', EvDisplay header # evs @ cleanup, r))"

subsection \<open>Vocabulary of the properties\<close>

text \<open>A write of the service record: a \<^verbatim>\<open>data.Put\<close> that is given the service.\<close>

fun is_service_put :: "event \<Rightarrow> bool" where
  "is_service_put (EvDataPut bucket key (StoredService svc)) = True"
| "is_service_put ev = False"

text \<open>
  The order in which the source pushes its five closures: the two address returns in
  \<^verbatim>\<open>reserveIps\<close>, the container removal in \<^verbatim>\<open>launchContainer\<close>, and the two network
  removals in \<^verbatim>\<open>attachNetwork\<close>.
\<close>

definition push_order :: "string \<Rightarrow> cleanFunc list" where
  "push_order cid =
     [ReturnLocalIP, ReturnGlobalIP, RemoveContainer cid, RemoveGlobalIP, RemoveNatMapping]"

text \<open>The key under which \<^verbatim>\<open>addEnvVars\<close> stores the password of a user.\<close>

definition pass_key :: "string \<Rightarrow> User \<Rightarrow> string" where
  "pass_key prefix user = prefix @ ''_'' @ ToUpper (Username user) @ ''_PASS''"

subsection \<open>A sample request and sample collaborators\<close>

text \<open>
  A request for the service \<^verbatim>\<open>data.db\<close>, the saga that the constructor builds for it,
  and a world in which the store holds no record, every call succeeds and the plan
  declares the users \<^verbatim>\<open>alice\<close> and \<^verbatim>\<open>bob\<close>. The runs below change single answers of
  this world.
\<close>

definition control0 :: ProcessControl where
  "control0 =
     \<lparr>Meta = [''name'' \<mapsto> ''data.db'', ''image'' \<mapsto> ''nanobox/postgresql''],
      DisplayLevel = 0\<rparr>"

definition saga0 :: serviceSetup where
  "saga0 =
     \<lparr>control = control0\<lparr>Meta := (Meta control0)(''label'' \<mapsto> ''data.db'')\<rparr>,
      service = zero_Service, localIP = nil_IP, globalIP = nil_IP, container = [],
      plan = [], fail = False, cleanFuncs = []\<rparr>"

definition plan0 :: Plan where
  "plan0 =
     \<lparr>Users = [\<lparr>Username = ''alice'', Password = []\<rparr>, \<lparr>Username = ''bob'', Password = []\<rparr>],
      DefaultUser = ''alice''\<rparr>"

definition world_ok :: world where
  "world_ok =
     \<lparr>AppName = ''app'',
      data_Get_service = (\<lambda>bucket key svc. (Some ''no record found'', svc)),
      data_Get_env = (\<lambda>bucket key. (Some ''no record found'', Map.empty)),
      data_Put = (\<lambda>bucket key v. None),
      ImagePull = (\<lambda>image. None),
      ReserveLocal = (''192.168.0.2'', None),
      ReserveGlobal = (''10.0.0.2'', None),
      ReturnIP = (\<lambda>ip. None),
      CreateContainer = (\<lambda>config. (''c1'', None)),
      ContainerRemove = (\<lambda>cid. None),
      AddIP = (\<lambda>ip. None),
      RemoveIP = (\<lambda>ip. None),
      AddNat = (\<lambda>g l. None),
      RemoveNat = (\<lambda>g l. None),
      plan_payload = (\<lambda>boxfile name. ''{}''),
      Exec = (\<lambda>cid cmd payload. (''users'', None)),
      Unmarshal_Plan = (\<lambda>txt pl. (None, plan0)),
      RandomString = (\<lambda>i n. replicate n (CHR ''x''))\<rparr>"

text \<open>The store already holds the service, in the state \<^verbatim>\<open>planned\<close>.\<close>

definition world_planned :: world where
  "world_planned =
     world_ok\<lparr>data_Get_service := (\<lambda>bucket key svc. (None, svc\<lparr>State := ''planned''\<rparr>))\<rparr>"

text \<open>
  The global pool is exhausted. In \<open>world_leak\<close> the return of the local address
  fails as well.
\<close>

definition world_no_global :: world where
  "world_no_global = world_ok\<lparr>ReserveGlobal := (nil_IP, Some ''no global ip'')\<rparr>"

definition world_leak :: world where
  "world_leak = world_no_global\<lparr>ReturnIP := (\<lambda>ip. Some ''return failed'')\<rparr>"

text \<open>The address translation cannot be set up.\<close>

definition world_no_nat :: world where
  "world_no_nat = world_ok\<lparr>AddNat := (\<lambda>g l. Some ''nat failed'')\<rparr>"

text \<open>The output of the plan hook does not parse.\<close>

definition world_bad_plan :: world where
  "world_bad_plan =
     world_ok\<lparr>Unmarshal_Plan := (\<lambda>txt pl. (Some ''unexpected end of JSON input'', pl))\<rparr>"

text \<open>
  The service \<^verbatim>\<open>data.db\<close> as \<^verbatim>\<open>persistService\<close> leaves it, for a given plan, and the
  saga that holds it when \<^verbatim>\<open>addEnvVars\<close> runs.
\<close>

definition service_of :: "User list \<Rightarrow> string \<Rightarrow> Service" where
  "service_of users dflt =
     \<lparr>ID = ''c1'', Name = ''data.db'', ExternalIP = ''10.0.0.2'', InternalIP = ''192.168.0.2'',
      State = ''planned'', Type = ''data'', Plan = \<lparr>Users = users, DefaultUser = dflt\<rparr>\<rparr>"

definition saga_of :: "Service \<Rightarrow> serviceSetup" where
  "saga_of svc = saga0\<lparr>service := svc\<rparr>"

definition user_alice :: User where
  "user_alice = \<lparr>Username = ''alice'', Password = ''p1''\<rparr>"

definition user_bob :: User where
  "user_bob = \<lparr>Username = ''bob'', Password = ''p2''\<rparr>"

definition user_alice2 :: User where
  "user_alice2 = \<lparr>Username = ''alice'', Password = ''p3''\<rparr>"

section \<open>Properties\<close>

lemmas sample_defs =
  control0_def saga0_def plan0_def world_ok_def world_planned_def world_no_global_def
  world_leak_def world_no_nat_def world_bad_plan_def zero_Service_def nil_IP_def meta_get_def

lemmas step_defs =
  loadService_def downloadImage_def reserveIps_def launchContainer_def attachNetwork_def
  planService_def persistService_def addEnvVars_def

subsection \<open>Running a list of steps\<close>

lemma run_steps_stop:
  "f s = (s1, evs, Some e) \<Longrightarrow> run_steps (f # fs) s = (s1\<lparr>fail := True\<rparr>, evs, Some e)"
  by simp

lemma run_steps_go:
  "f s = (s1, evs, None) \<Longrightarrow>
   run_steps (f # fs) s = (case run_steps fs s1 of (s2, evs', r) \<Rightarrow> (s2, evs @ evs', r))"
  by simp

lemma run_steps_ConsE:
  assumes "run_steps (f # fs) s = (s', evs, r)"
  obtains (stop) s1 e where "f s = (s1, evs, Some e)" "s' = s1\<lparr>fail := True\<rparr>" "r = Some e"
  | (go) s1 evs1 evs2 where "f s = (s1, evs1, None)" "run_steps fs s1 = (s', evs2, r)"
      "evs = evs1 @ evs2"
  using assms by (auto split: prod.splits option.splits)

lemma run_steps_NilE:
  assumes "run_steps [] s = (s', evs, r)"
  obtains "s' = s" "evs = []" "r = None"
  using assms by simp

lemma run_steps_append:
  "run_steps (fs @ gs) s =
     (case run_steps fs s of
        (s1, evs1, Some e) \<Rightarrow> (s1, evs1, Some e)
      | (s1, evs1, None) \<Rightarrow>
          (case run_steps gs s1 of (s2, evs2, r) \<Rightarrow> (s2, evs1 @ evs2, r)))"
  by (induction fs arbitrary: s) (auto split: prod.splits option.splits)

subsection \<open>What each step does to the saga\<close>

lemma loadService_facts:
  "snd (loadService w t) = ([EvDataGet (AppName w) (meta_get (control t) ''name'')], None) \<and>
   fail (fst (loadService w t)) = fail t \<and>
   cleanFuncs (fst (loadService w t)) = cleanFuncs t \<and>
   control (fst (loadService w t)) = control t"
  by (simp add: loadService_def Let_def case_prod_beta)

lemma downloadImage_facts:
  "downloadImage w t =
     (t, [EvImagePull (meta_get (control t) ''image'')], ImagePull w (meta_get (control t) ''image''))"
  by (simp add: downloadImage_def Let_def split: option.splits)

lemma reserveIps_facts:
  "fail (fst (reserveIps w t)) = fail t \<and>
   filter is_service_put (fst (snd (reserveIps w t))) = [] \<and>
   (case snd (snd (reserveIps w t)) of
      None \<Rightarrow> cleanFuncs (fst (reserveIps w t)) = cleanFuncs t @ [ReturnLocalIP, ReturnGlobalIP]
    | Some e \<Rightarrow> cleanFuncs (fst (reserveIps w t)) = cleanFuncs t \<or>
               cleanFuncs (fst (reserveIps w t)) = cleanFuncs t @ [ReturnLocalIP])"
  by (simp add: reserveIps_def Let_def case_prod_beta split: option.splits)

lemma launchContainer_facts:
  "fail (fst (launchContainer w t)) = fail t \<and>
   filter is_service_put (fst (snd (launchContainer w t))) = [] \<and>
   (case snd (snd (launchContainer w t)) of
      None \<Rightarrow> cleanFuncs (fst (launchContainer w t)) =
               cleanFuncs t @ [RemoveContainer (container (fst (launchContainer w t)))]
    | Some e \<Rightarrow> cleanFuncs (fst (launchContainer w t)) = cleanFuncs t)"
  by (simp add: launchContainer_def Let_def case_prod_beta split: option.splits)

lemma attachNetwork_facts:
  "fail (fst (attachNetwork w t)) = fail t \<and>
   filter is_service_put (fst (snd (attachNetwork w t))) = [] \<and>
   container (fst (attachNetwork w t)) = container t \<and>
   (case snd (snd (attachNetwork w t)) of
      None \<Rightarrow> cleanFuncs (fst (attachNetwork w t)) =
               cleanFuncs t @ [RemoveGlobalIP, RemoveNatMapping]
    | Some e \<Rightarrow> cleanFuncs (fst (attachNetwork w t)) = cleanFuncs t \<or>
               cleanFuncs (fst (attachNetwork w t)) = cleanFuncs t @ [RemoveGlobalIP])"
  by (simp add: attachNetwork_def Let_def split: option.splits)

lemma planService_facts:
  "fail (fst (planService w t)) = fail t \<and>
   filter is_service_put (fst (snd (planService w t))) = [] \<and>
   cleanFuncs (fst (planService w t)) = cleanFuncs t \<and>
   container (fst (planService w t)) = container t"
  by (simp add: planService_def Let_def case_prod_beta split: option.splits)

lemma persistService_facts:
  "fail (fst (persistService w t)) = fail t \<and>
   cleanFuncs (fst (persistService w t)) = cleanFuncs t \<and>
   container (fst (persistService w t)) = container t \<and>
   (case fst (Unmarshal_Plan w (plan t) (Plan (service t))) of
      Some e \<Rightarrow> snd (persistService w t) = ([], Some (''persistService:'' @ e))
    | None \<Rightarrow> length (filter is_service_put (fst (snd (persistService w t)))) = 1)"
  by (simp add: persistService_def Let_def case_prod_beta split: option.splits)

lemma addEnvVars_facts:
  "fst (addEnvVars w t) = t \<and> filter is_service_put (fst (snd (addEnvVars w t))) = []"
  by (simp add: addEnvVars_def Let_def case_prod_beta)

lemma step_fail:
  "fail (fst (downloadImage w t)) = fail t"
  "fail (fst (reserveIps w t)) = fail t"
  "fail (fst (launchContainer w t)) = fail t"
  "fail (fst (attachNetwork w t)) = fail t"
  "fail (fst (planService w t)) = fail t"
  "fail (fst (persistService w t)) = fail t"
  "fail (fst (addEnvVars w t)) = fail t"
  by (simp_all add: downloadImage_facts reserveIps_facts launchContainer_facts
        attachNetwork_facts planService_facts persistService_facts addEnvVars_facts)

lemma run_steps_fail:
  assumes "\<And>f t. f \<in> set fs \<Longrightarrow> fail (fst (f t)) = fail t"
  shows "fail (fst (run_steps fs s)) = (fail s \<or> snd (snd (run_steps fs s)) \<noteq> None)"
  using assms
proof (induction fs arbitrary: s)
  case Nil
  then show ?case by simp
next
  case (Cons f fs)
  obtain s1 evs1 r1 where f: "f s = (s1, evs1, r1)" by (cases "f s")
  have s1: "fail s1 = fail s" using Cons.prems [of f s] f by simp
  show ?case
  proof (cases r1)
    case None
    obtain s2 evs2 r2 where rest: "run_steps fs s1 = (s2, evs2, r2)"
      by (cases "run_steps fs s1")
    have "fail (fst (run_steps fs s1)) = (fail s1 \<or> snd (snd (run_steps fs s1)) \<noteq> None)"
      using Cons.IH Cons.prems by simp
    then show ?thesis using f None s1 rest by simp
  next
    case (Some e)
    then show ?thesis using f by simp
  qed
qed

lemma Process_body_unfold:
  "Process_body w s =
     (if State (service (fst (loadService w s))) \<noteq> ''initialized''
      then (fst (loadService w s), [EvDataGet (AppName w) (meta_get (control s) ''name'')], None)
      else
        (case run_steps [downloadImage w, reserveIps w, launchContainer w, attachNetwork w,
                         planService w, persistService w, addEnvVars w] (fst (loadService w s)) of
           (s2, evs', r) \<Rightarrow>
             (s2, EvDataGet (AppName w) (meta_get (control s) ''name'') # evs', r)))"
  using loadService_facts [of w s]
  by (cases "loadService w s") (simp add: Process_body_def del: run_steps.simps)

lemma Process_body_fail:
  "fail (fst (Process_body w s)) = (fail s \<or> snd (snd (Process_body w s)) \<noteq> None)"
proof -
  let ?s1 = "fst (loadService w s)"
  let ?fs = "[downloadImage w, reserveIps w, launchContainer w, attachNetwork w,
              planService w, persistService w, addEnvVars w]"
  have "fail (fst (run_steps ?fs ?s1)) = (fail ?s1 \<or> snd (snd (run_steps ?fs ?s1)) \<noteq> None)"
    by (rule run_steps_fail) (auto simp: step_fail)
  then show ?thesis
    using loadService_facts [of w s]
    by (cases "run_steps ?fs ?s1") (simp add: Process_body_unfold del: run_steps.simps)
qed

lemma push_order_takeI:
  "p \<in> {[], [ReturnLocalIP], [ReturnLocalIP, ReturnGlobalIP],
         [ReturnLocalIP, ReturnGlobalIP, RemoveContainer cid],
         [ReturnLocalIP, ReturnGlobalIP, RemoveContainer cid, RemoveGlobalIP],
         [ReturnLocalIP, ReturnGlobalIP, RemoveContainer cid, RemoveGlobalIP, RemoveNatMapping]}
   \<Longrightarrow> \<exists>n. p = take n (push_order cid)"
proof -
  assume "p \<in> {[], [ReturnLocalIP], [ReturnLocalIP, ReturnGlobalIP],
         [ReturnLocalIP, ReturnGlobalIP, RemoveContainer cid],
         [ReturnLocalIP, ReturnGlobalIP, RemoveContainer cid, RemoveGlobalIP],
         [ReturnLocalIP, ReturnGlobalIP, RemoveContainer cid, RemoveGlobalIP, RemoveNatMapping]}"
  then consider "p = take 0 (push_order cid)" | "p = take 1 (push_order cid)"
    | "p = take 2 (push_order cid)" | "p = take 3 (push_order cid)"
    | "p = take 4 (push_order cid)" | "p = take 5 (push_order cid)"
    by (auto simp: push_order_def)
  then show ?thesis by (cases; blast)
qed

lemma run_steps_cleanFuncs:
  assumes "run_steps [downloadImage w, reserveIps w, launchContainer w, attachNetwork w,
                      planService w, persistService w, addEnvVars w] s = (s', evs, r)"
  shows "\<exists>n cid. cleanFuncs s' = cleanFuncs s @ take n (push_order cid)"
proof -
  have "\<exists>cid p. cleanFuncs s' = cleanFuncs s @ p \<and>
      p \<in> {[], [ReturnLocalIP], [ReturnLocalIP, ReturnGlobalIP],
         [ReturnLocalIP, ReturnGlobalIP, RemoveContainer cid],
         [ReturnLocalIP, ReturnGlobalIP, RemoveContainer cid, RemoveGlobalIP],
         [ReturnLocalIP, ReturnGlobalIP, RemoveContainer cid, RemoveGlobalIP, RemoveNatMapping]}"
    using assms
  proof (cases rule: run_steps_ConsE)
    case (stop s1 e)
    then show ?thesis by (simp add: downloadImage_facts)
  next
    case (go s1 evs1 evs2)
    then have s1: "s1 = s" by (simp add: downloadImage_facts)
    from go(2) show ?thesis
    proof (cases rule: run_steps_ConsE)
      case (stop s2 e)
      then show ?thesis using reserveIps_facts [of w s1] s1 by auto
    next
      case (go s2 evs1 evs2)
      then have s2: "cleanFuncs s2 = cleanFuncs s @ [ReturnLocalIP, ReturnGlobalIP]"
        using reserveIps_facts [of w s1] s1 by simp
      from go(2) show ?thesis
      proof (cases rule: run_steps_ConsE)
        case (stop s3 e)
        then show ?thesis using launchContainer_facts [of w s2] s2 by simp
      next
        case (go s3 evs1 evs2)
        then have s3: "cleanFuncs s3 =
            cleanFuncs s @ [ReturnLocalIP, ReturnGlobalIP, RemoveContainer (container s3)]"
          using launchContainer_facts [of w s2] s2 by simp
        from go(2) show ?thesis
        proof (cases rule: run_steps_ConsE)
          case (stop s4 e)
          then show ?thesis using attachNetwork_facts [of w s3] s3 by auto
        next
          case (go s4 evs1 evs2)
          then have s4: "cleanFuncs s4 =
              cleanFuncs s @ [ReturnLocalIP, ReturnGlobalIP, RemoveContainer (container s3),
                              RemoveGlobalIP, RemoveNatMapping]"
            using attachNetwork_facts [of w s3] s3 by simp
          from go(2) show ?thesis
          proof (cases rule: run_steps_ConsE)
            case (stop s5 e)
            then show ?thesis using planService_facts [of w s4] s4 by simp
          next
            case (go s5 evs1 evs2)
            then have s5: "cleanFuncs s5 = cleanFuncs s4"
              using planService_facts [of w s4] by simp
            from go(2) show ?thesis
            proof (cases rule: run_steps_ConsE)
              case (stop s6 e)
              then show ?thesis using persistService_facts [of w s5] s5 s4 by simp
            next
              case (go s6 evs1 evs2)
              then have s6: "cleanFuncs s6 = cleanFuncs s4"
                using persistService_facts [of w s5] s5 by simp
              from go(2) show ?thesis
              proof (cases rule: run_steps_ConsE)
                case (stop s7 e)
                then show ?thesis using addEnvVars_facts [of w s6] s6 s4 by simp
              next
                case (go s7 evs1 evs2)
                then show ?thesis using addEnvVars_facts [of w s6] s6 s4 by simp
              qed
            qed
          qed
        qed
      qed
    qed
  qed
  then show ?thesis using push_order_takeI by metis
qed

subsection \<open>The cleanup loop\<close>

lemma clean_loop_events:
  "fst (clean_loop w s fs) =
     map (\<lambda>f. fst (call_cleanFunc w s f))
       (takeWhile (\<lambda>f. snd (call_cleanFunc w s f) = None) fs @
        take 1 (dropWhile (\<lambda>f. snd (call_cleanFunc w s f) = None) fs))"
proof (induction fs)
  case Nil
  then show ?case by simp
next
  case (Cons f fs)
  obtain ev r where c: "call_cleanFunc w s f = (ev, r)" by (cases "call_cleanFunc w s f")
  show ?case
  proof (cases r)
    case None
    then show ?thesis using c Cons.IH by (cases "clean_loop w s fs") simp
  next
    case (Some e)
    then show ?thesis using c by simp
  qed
qed

lemma clean_loop_result:
  "snd (clean_loop w s fs) =
     (case dropWhile (\<lambda>f. snd (call_cleanFunc w s f) = None) fs of
        [] \<Rightarrow> None | f # rest \<Rightarrow> snd (call_cleanFunc w s f))"
proof (induction fs)
  case Nil
  then show ?case by simp
next
  case (Cons f fs)
  obtain ev r where c: "call_cleanFunc w s f = (ev, r)" by (cases "call_cleanFunc w s f")
  show ?case
  proof (cases r)
    case None
    then show ?thesis using c Cons.IH by (cases "clean_loop w s fs") simp
  next
    case (Some e)
    then show ?thesis using c by simp
  qed
qed

lemma call_cleanFunc_no_put: "\<not> is_service_put (fst (call_cleanFunc w s f))"
  by (cases f) simp_all

lemma clean_no_put: "filter is_service_put (fst (clean w s)) = []"
  by (simp add: clean_def clean_loop_events call_cleanFunc_no_put)

lemma Process_unfold:
  "Process w s =
     (fst (Process_body w s),
      EvDisplay (''Launching '' @ meta_get (control s) ''label'' @ ''...'') #
        fst (snd (Process_body w s)) @ fst (clean w (fst (Process_body w s))),
      snd (snd (Process_body w s)))"
  by (simp add: Process_def case_prod_beta)

subsection \<open>Loading the service\<close>

text \<open>
  Claim C9. \<^verbatim>\<open>loadService\<close> returns \<^verbatim>\<open>nil\<close> for every world and every saga. The error
  that \<^verbatim>\<open>data.Get\<close> returns is not looked at: the loaded record is the record as the
  call left it, with an empty state replaced by \<^verbatim>\<open>initialized\<close>. In particular, when
  the call leaves a record with an empty state untouched (a store error or a missing
  record), the saga holds that record in the state \<^verbatim>\<open>initialized\<close>.
\<close>

theorem loadService_returns_nil:
  "snd (snd (loadService w s)) = None \<and>
   (\<forall>e svc. data_Get_service w (AppName w) (meta_get (control s) ''name'') (service s) = (e, svc) \<longrightarrow>
      service (fst (loadService w s)) =
        (if State svc = [] then svc\<lparr>State := ''initialized''\<rparr> else svc)) \<and>
   (State (service s) = [] \<and>
    snd (data_Get_service w (AppName w) (meta_get (control s) ''name'') (service s)) = service s \<longrightarrow>
      service (fst (loadService w s)) = (service s)\<lparr>State := ''initialized''\<rparr>)"
  by (simp add: loadService_def Let_def split: prod.splits)

theorem loadService_returns_nil_witness:
  "data_Get_service world_ok (AppName world_ok) (meta_get (control saga0) ''name'') (service saga0)
     = (Some ''no record found'', service saga0) \<and>
   State (service saga0) = [] \<and>
   snd (snd (loadService world_ok saga0)) = None \<and>
   service (fst (loadService world_ok saga0)) = zero_Service\<lparr>State := ''initialized''\<rparr>"
  using loadService_returns_nil [of world_ok saga0]
  by (simp add: sample_defs)

subsection \<open>Construction\<close>

text \<open>
  Claim C7. The source calls a key missing when its lookup gives the empty string, which
  is what a Go map answers for an absent key. When \<^verbatim>\<open>name\<close> or \<^verbatim>\<open>image\<close> is missing,
  \<^verbatim>\<open>serviceSetupFunc\<close> returns the error \<^verbatim>\<open>missing image or name\<close>, builds no saga and
  leaves the control of the caller as it was; the function has no access to a
  collaborator, so no call is made. When both are there, it returns a saga with no
  compensation pushed and the failure flag down, whose label is the name if the label
  was missing and the given label otherwise.
\<close>

theorem serviceSetupFunc_validates:
  "(meta_get ctl ''name'' = [] \<or> meta_get ctl ''image'' = [] \<longrightarrow>
      serviceSetupFunc ctl = (ctl, Inl ''missing image or name'')) \<and>
   (meta_get ctl ''name'' \<noteq> [] \<and> meta_get ctl ''image'' \<noteq> [] \<longrightarrow>
      (\<exists>ctl' s. serviceSetupFunc ctl = (ctl', Inr s) \<and> control s = ctl' \<and>
         cleanFuncs s = [] \<and> \<not> fail s \<and>
         meta_get ctl' ''name'' = meta_get ctl ''name'' \<and>
         meta_get ctl' ''image'' = meta_get ctl ''image'' \<and>
         meta_get ctl' ''label'' =
           (if meta_get ctl ''label'' = [] then meta_get ctl ''name'' else meta_get ctl ''label'')))"
  by (simp add: serviceSetupFunc_def Let_def meta_get_def)

theorem serviceSetupFunc_validates_witness:
  "meta_get control0 ''name'' \<noteq> [] \<and> meta_get control0 ''image'' \<noteq> [] \<and>
   Meta control0 ''label'' = None \<and>
   serviceSetupFunc control0 = (control saga0, Inr saga0) \<and>
   meta_get (control saga0) ''label'' = ''data.db'' \<and>
   Meta (control0\<lparr>Meta := (Meta control0)(''image'' := None)\<rparr>) ''image'' = None \<and>
   serviceSetupFunc (control0\<lparr>Meta := (Meta control0)(''image'' := None)\<rparr>) =
     (control0\<lparr>Meta := (Meta control0)(''image'' := None)\<rparr>, Inl ''missing image or name'')"
  using serviceSetupFunc_validates [of control0]
    serviceSetupFunc_validates [of "control0\<lparr>Meta := (Meta control0)(''image'' := None)\<rparr>"]
  by (simp add: sample_defs serviceSetupFunc_def Let_def)

subsection \<open>Resuming\<close>

text \<open>
  Claim C3. Take a saga whose failure flag is down, as the constructor returns it. When
  the record that \<^verbatim>\<open>data.Get\<close> loads has a state other than the empty one and
  \<^verbatim>\<open>initialized\<close>, \<^verbatim>\<open>Process\<close> returns \<^verbatim>\<open>nil\<close>, and the calls of the run are the header
  on the display and the \<^verbatim>\<open>data.Get\<close> of the load step: no image pull, no reservation,
  no container, no network call, no exec, no write to the store, no compensation.
\<close>

theorem Process_resume_no_calls:
  assumes "\<not> fail s"
    and "State (snd (data_Get_service w (AppName w) (meta_get (control s) ''name'') (service s)))
           \<notin> {[], ''initialized''}"
  shows "Process w s =
           (s\<lparr>service := snd (data_Get_service w (AppName w) (meta_get (control s) ''name'') (service s))\<rparr>,
            [EvDisplay (''Launching '' @ meta_get (control s) ''label'' @ ''...''),
             EvDataGet (AppName w) (meta_get (control s) ''name'')],
            None)"
proof -
  let ?svc = "snd (data_Get_service w (AppName w) (meta_get (control s) ''name'') (service s))"
  have load: "loadService w s =
      (s\<lparr>service := ?svc\<rparr>, [EvDataGet (AppName w) (meta_get (control s) ''name'')], None)"
    using assms(2) by (simp add: loadService_def Let_def case_prod_beta)
  have body: "Process_body w s =
      (s\<lparr>service := ?svc\<rparr>, [EvDataGet (AppName w) (meta_get (control s) ''name'')], None)"
    using assms(2) by (simp add: Process_body_def load)
  show ?thesis
    using assms(1) by (simp add: Process_def body clean_def)
qed

theorem Process_resume_no_calls_witness:
  "\<not> fail saga0 \<and>
   State (snd (data_Get_service world_planned (AppName world_planned)
                 (meta_get (control saga0) ''name'') (service saga0))) = ''planned'' \<and>
   Process world_planned saga0 =
     (saga0\<lparr>service := zero_Service\<lparr>State := ''planned''\<rparr>\<rparr>,
      [EvDisplay ''Launching data.db...'', EvDataGet ''app'' ''data.db''], None)"
  using Process_resume_no_calls [of saga0 world_planned]
  by (simp add: sample_defs)

subsection \<open>Order of the compensations\<close>

text \<open>
  Claim C2. Take a saga whose failure flag is down. The closures it holds after the body
  of \<^verbatim>\<open>Process\<close> are those it held before, followed by an initial part of the five
  closures of the source in the order of their \<^verbatim>\<open>append\<close> calls. When \<^verbatim>\<open>Process\<close>
  returns \<^verbatim>\<open>nil\<close>, the deferred cleanup calls none of them. When \<^verbatim>\<open>Process\<close> returns an
  error, the cleanup calls the closures in the order of the list, first pushed first:
  all those in front of the first closure that returns an error, and that closure;
  when no closure returns an error, it calls every one of them.
\<close>

theorem Process_cleanup_in_push_order:
  assumes "\<not> fail s"
  shows "\<exists>s' body r cleanup n cid.
     Process_body w s = (s', body, r) \<and>
     Process w s =
       (s', EvDisplay (''Launching '' @ meta_get (control s) ''label'' @ ''...'') # body @ cleanup, r) \<and>
     cleanFuncs s' = cleanFuncs s @ take n (push_order cid) \<and>
     (r = None \<longrightarrow> cleanup = []) \<and>
     (r \<noteq> None \<longrightarrow>
        cleanup = map (\<lambda>f. fst (call_cleanFunc w s' f))
          (takeWhile (\<lambda>f. snd (call_cleanFunc w s' f) = None) (cleanFuncs s') @
           take 1 (dropWhile (\<lambda>f. snd (call_cleanFunc w s' f) = None) (cleanFuncs s')))) \<and>
     (r \<noteq> None \<and> (\<forall>f \<in> set (cleanFuncs s'). snd (call_cleanFunc w s' f) = None) \<longrightarrow>
        cleanup = map (\<lambda>f. fst (call_cleanFunc w s' f)) (cleanFuncs s'))"
proof -
  obtain s' body r where body: "Process_body w s = (s', body, r)"
    by (cases "Process_body w s")
  have flag: "fail s' = (r \<noteq> None)"
    using Process_body_fail [of w s] body assms by simp
  have pushed: "\<exists>n cid. cleanFuncs s' = cleanFuncs s @ take n (push_order cid)"
  proof (cases "State (service (fst (loadService w s))) \<noteq> ''initialized''")
    case True
    then have "cleanFuncs s' = cleanFuncs s @ take 0 (push_order [])"
      using body loadService_facts [of w s] by (simp add: Process_body_unfold)
    then show ?thesis by blast
  next
    case False
    then obtain evs where "run_steps [downloadImage w, reserveIps w, launchContainer w,
        attachNetwork w, planService w, persistService w, addEnvVars w]
        (fst (loadService w s)) = (s', evs, r)"
      using body by (auto simp add: Process_body_unfold simp del: run_steps.simps split: prod.splits)
    from run_steps_cleanFuncs [OF this] show ?thesis
      using loadService_facts [of w s] by simp
  qed
  then obtain n cid where pushed': "cleanFuncs s' = cleanFuncs s @ take n (push_order cid)"
    by blast
  let ?ok = "\<lambda>f. snd (call_cleanFunc w s' f) = None"
  let ?cleanup = "fst (clean w s')"
  have run: "Process w s =
      (s', EvDisplay (''Launching '' @ meta_get (control s) ''label'' @ ''...'') # body @ ?cleanup, r)"
    using body by (simp add: Process_unfold)
  have c0: "r = None \<longrightarrow> ?cleanup = []"
    using flag by (simp add: clean_def)
  have c1: "r \<noteq> None \<longrightarrow> ?cleanup = map (\<lambda>f. fst (call_cleanFunc w s' f))
          (takeWhile ?ok (cleanFuncs s') @ take 1 (dropWhile ?ok (cleanFuncs s')))"
    using flag by (simp add: clean_def clean_loop_events)
  have c2: "r \<noteq> None \<and> (\<forall>f \<in> set (cleanFuncs s'). ?ok f) \<longrightarrow>
        ?cleanup = map (\<lambda>f. fst (call_cleanFunc w s' f)) (cleanFuncs s')"
  proof (intro impI, elim conjE)
    assume r: "r \<noteq> None" and all: "\<forall>f \<in> set (cleanFuncs s'). ?ok f"
    from all have "takeWhile ?ok (cleanFuncs s') = cleanFuncs s'"
      and "dropWhile ?ok (cleanFuncs s') = []"
      by simp_all
    with c1 r show "?cleanup = map (\<lambda>f. fst (call_cleanFunc w s' f)) (cleanFuncs s')"
      by simp
  qed
  from body run pushed' c0 c1 c2 show ?thesis by blast
qed

theorem Process_cleanup_in_push_order_witness:
  "\<not> fail saga0 \<and>
   Process world_no_nat saga0 =
     (saga0\<lparr>localIP := ''192.168.0.2'', globalIP := ''10.0.0.2'', container := ''c1'',
             service := zero_Service\<lparr>State := ''initialized''\<rparr>, fail := True,
             cleanFuncs := take 4 (push_order ''c1'')\<rparr>,
      [EvDisplay ''Launching data.db...'', EvDataGet ''app'' ''data.db'',
       EvImagePull ''nanobox/postgresql'', EvReserveLocal, EvReserveGlobal,
       EvInfo ''Starting container...'',
       EvCreateContainer \<lparr>cfg_Name = ''nanobox-app-data.db'', cfg_Image = ''nanobox/postgresql'',
                           cfg_Network = ''virt'', cfg_IP = ''192.168.0.2''\<rparr>,
       EvInfo ''Bridging container to host network...'', EvAddIP ''10.0.0.2'',
       EvAddNat ''10.0.0.2'' ''192.168.0.2'',
       EvReturnIP ''192.168.0.2'', EvReturnIP ''10.0.0.2'', EvContainerRemove ''c1'',
       EvRemoveIP ''10.0.0.2''],
      Some ''nat failed'') \<and>
   (\<exists>n cid. cleanFuncs (fst (Process world_no_nat saga0)) =
              cleanFuncs saga0 @ take n (push_order cid))"
proof -
  have h: "\<not> fail saga0" by (simp add: saga0_def)
  have run: "Process world_no_nat saga0 =
     (saga0\<lparr>localIP := ''192.168.0.2'', globalIP := ''10.0.0.2'', container := ''c1'',
             service := zero_Service\<lparr>State := ''initialized''\<rparr>, fail := True,
             cleanFuncs := take 4 (push_order ''c1'')\<rparr>,
      [EvDisplay ''Launching data.db...'', EvDataGet ''app'' ''data.db'',
       EvImagePull ''nanobox/postgresql'', EvReserveLocal, EvReserveGlobal,
       EvInfo ''Starting container...'',
       EvCreateContainer \<lparr>cfg_Name = ''nanobox-app-data.db'', cfg_Image = ''nanobox/postgresql'',
                           cfg_Network = ''virt'', cfg_IP = ''192.168.0.2''\<rparr>,
       EvInfo ''Bridging container to host network...'', EvAddIP ''10.0.0.2'',
       EvAddNat ''10.0.0.2'' ''192.168.0.2'',
       EvReturnIP ''192.168.0.2'', EvReturnIP ''10.0.0.2'', EvContainerRemove ''c1'',
       EvRemoveIP ''10.0.0.2''],
      Some ''nat failed'')"
    by (simp add: Process_def Process_body_def step_defs clean_def sample_defs push_order_def Let_def)
  from Process_cleanup_in_push_order [OF h, of world_no_nat]
  obtain s' evs r n cid where
    "Process world_no_nat saga0 = (s', evs, r)"
    "cleanFuncs s' = cleanFuncs saga0 @ take n (push_order cid)"
    by blast
  then have "cleanFuncs (fst (Process world_no_nat saga0)) =
      cleanFuncs saga0 @ take n (push_order cid)"
    by simp
  then have ex: "\<exists>n cid. cleanFuncs (fst (Process world_no_nat saga0)) =
      cleanFuncs saga0 @ take n (push_order cid)"
    by blast
  from h run ex show ?thesis by (intro conjI)
qed

subsection \<open>A failed compensation\<close>

text \<open>
  Claim C1, evaluated on the sample request. In \<open>world_leak\<close> the global pool is
  exhausted and the return of the local address fails: \<^verbatim>\<open>clean\<close> returns the error
  \<^verbatim>\<open>return failed\<close>, and \<^verbatim>\<open>Process\<close> returns the error of the step,
  \<^verbatim>\<open>no global ip\<close>, with the same calls and the same result as in \<open>world_no_global\<close>,
  where the address is returned. The result of the deferred \<^verbatim>\<open>self.clean()\<close> does not
  reach the caller.
\<close>

theorem Process_drops_cleanup_error:
  "Process world_leak saga0 =
     (saga0\<lparr>service := zero_Service\<lparr>State := ''initialized''\<rparr>, localIP := ''192.168.0.2'',
             globalIP := nil_IP, fail := True, cleanFuncs := [ReturnLocalIP]\<rparr>,
      [EvDisplay ''Launching data.db...'', EvDataGet ''app'' ''data.db'',
       EvImagePull ''nanobox/postgresql'', EvReserveLocal, EvReserveGlobal,
       EvReturnIP ''192.168.0.2''],
      Some ''no global ip'') \<and>
   clean world_leak (fst (Process world_leak saga0)) =
     ([EvReturnIP ''192.168.0.2''], Some ''return failed'') \<and>
   clean world_no_global (fst (Process world_no_global saga0)) =
     ([EvReturnIP ''192.168.0.2''], None) \<and>
   snd (Process world_no_global saga0) = snd (Process world_leak saga0)"
  by (simp add: Process_def Process_body_def step_defs clean_def sample_defs Let_def)

subsection \<open>Reserving the addresses\<close>

lemma later_steps_keep_ips:
  "localIP (fst (launchContainer w t)) = localIP t \<and>
   globalIP (fst (launchContainer w t)) = globalIP t \<and>
   (\<exists>p. cleanFuncs (fst (launchContainer w t)) = cleanFuncs t @ p)"
  "localIP (fst (attachNetwork w t)) = localIP t \<and>
   globalIP (fst (attachNetwork w t)) = globalIP t \<and>
   (\<exists>p. cleanFuncs (fst (attachNetwork w t)) = cleanFuncs t @ p)"
  "localIP (fst (planService w t)) = localIP t \<and>
   globalIP (fst (planService w t)) = globalIP t \<and>
   (\<exists>p. cleanFuncs (fst (planService w t)) = cleanFuncs t @ p)"
  "localIP (fst (persistService w t)) = localIP t \<and>
   globalIP (fst (persistService w t)) = globalIP t \<and>
   (\<exists>p. cleanFuncs (fst (persistService w t)) = cleanFuncs t @ p)"
  "localIP (fst (addEnvVars w t)) = localIP t \<and>
   globalIP (fst (addEnvVars w t)) = globalIP t \<and>
   (\<exists>p. cleanFuncs (fst (addEnvVars w t)) = cleanFuncs t @ p)"
  by (simp_all add: launchContainer_def attachNetwork_def planService_def persistService_def
        addEnvVars_def Let_def case_prod_beta split: option.splits)

lemma run_steps_keep_ips:
  assumes "\<And>f t. f \<in> set fs \<Longrightarrow>
      localIP (fst (f t)) = localIP t \<and> globalIP (fst (f t)) = globalIP t \<and>
      (\<exists>p. cleanFuncs (fst (f t)) = cleanFuncs t @ p)"
  shows "localIP (fst (run_steps fs s)) = localIP s \<and>
         globalIP (fst (run_steps fs s)) = globalIP s \<and>
         (\<exists>p. cleanFuncs (fst (run_steps fs s)) = cleanFuncs s @ p)"
  using assms
proof (induction fs arbitrary: s)
  case Nil
  then show ?case by simp
next
  case (Cons f fs)
  obtain s1 evs1 r1 where f: "f s = (s1, evs1, r1)" by (cases "f s")
  have one: "localIP s1 = localIP s \<and> globalIP s1 = globalIP s \<and>
      (\<exists>p. cleanFuncs s1 = cleanFuncs s @ p)"
    using Cons.prems [of f s] f by simp
  show ?case
  proof (cases r1)
    case None
    obtain s2 evs2 r2 where rest: "run_steps fs s1 = (s2, evs2, r2)"
      by (cases "run_steps fs s1")
    have "localIP (fst (run_steps fs s1)) = localIP s1 \<and>
        globalIP (fst (run_steps fs s1)) = globalIP s1 \<and>
        (\<exists>p. cleanFuncs (fst (run_steps fs s1)) = cleanFuncs s1 @ p)"
      using Cons.IH Cons.prems by simp
    then show ?thesis using f None one rest by auto
  next
    case (Some e)
    then show ?thesis using f one by simp
  qed
qed

lemma clean_loop_two_returns:
  assumes "localIP t = lip" "globalIP t = gip"
  shows "fst (clean_loop w t (ReturnLocalIP # ReturnGlobalIP # p)) =
     EvReturnIP lip #
       (case ReturnIP w lip of
          Some e \<Rightarrow> []
        | None \<Rightarrow> EvReturnIP gip #
            (case ReturnIP w gip of Some e \<Rightarrow> [] | None \<Rightarrow> fst (clean_loop w t p)))"
  using assms
  by (cases "ReturnIP w lip"; cases "ReturnIP w gip"; cases "clean_loop w t p") simp_all

lemma Process_returns_both_addresses:
  assumes fresh: "\<not> fail s" "cleanFuncs s = []"
    and init: "State (snd (data_Get_service w (AppName w) (meta_get (control s) ''name'')
                 (service s))) \<in> {[], ''initialized''}"
    and pull: "ImagePull w (meta_get (control s) ''image'') = None"
    and loc: "snd (ReserveLocal w) = None"
    and glob: "snd (ReserveGlobal w) = None"
    and err: "snd (snd (Process w s)) \<noteq> None"
  shows "\<exists>p. cleanFuncs (fst (Process w s)) = ReturnLocalIP # ReturnGlobalIP # p \<and>
     fst (snd (Process w s)) =
       EvDisplay (''Launching '' @ meta_get (control s) ''label'' @ ''...'') #
       fst (snd (Process_body w s)) @
       EvReturnIP (fst (ReserveLocal w)) #
         (case ReturnIP w (fst (ReserveLocal w)) of
            Some e \<Rightarrow> []
          | None \<Rightarrow> EvReturnIP (fst (ReserveGlobal w)) #
              (case ReturnIP w (fst (ReserveGlobal w)) of
                 Some e \<Rightarrow> []
               | None \<Rightarrow> fst (clean_loop w (fst (Process w s)) p)))"
proof -
  let ?s1 = "fst (loadService w s)"
  let ?lip = "fst (ReserveLocal w)"
  let ?gip = "fst (ReserveGlobal w)"
  let ?tail = "[launchContainer w, attachNetwork w, planService w, persistService w,
                addEnvVars w]"
  have st: "State (service ?s1) = ''initialized''"
    using init by (auto simp: loadService_def Let_def case_prod_beta)
  have s1: "control ?s1 = control s" "cleanFuncs ?s1 = []" "fail ?s1 = fail s"
    using fresh loadService_facts [of w s] by simp_all
  have dl: "downloadImage w ?s1 = (?s1, [EvImagePull (meta_get (control s) ''image'')], None)"
    using pull s1 by (simp add: downloadImage_facts)
  let ?s3 = "?s1\<lparr>localIP := ?lip, globalIP := ?gip,
                   cleanFuncs := [ReturnLocalIP, ReturnGlobalIP]\<rparr>"
  have rs: "reserveIps w ?s1 = (?s3, [EvReserveLocal, EvReserveGlobal], None)"
    using loc glob s1 by (simp add: reserveIps_def Let_def case_prod_beta)
  obtain s' evs' r where tail: "run_steps ?tail ?s3 = (s', evs', r)"
    by (cases "run_steps ?tail ?s3")
  have body: "Process_body w s =
      (s', EvDataGet (AppName w) (meta_get (control s) ''name'') #
           EvImagePull (meta_get (control s) ''image'') # EvReserveLocal # EvReserveGlobal # evs',
       r)"
    using st tail
    by (simp add: Process_body_unfold
          run_steps_go [where f = "downloadImage w" and s = "?s1", OF dl]
          run_steps_go [where f = "reserveIps w" and s = "?s1", OF rs]
        del: run_steps.simps)
  have "localIP (fst (run_steps ?tail ?s3)) = localIP ?s3 \<and>
      globalIP (fst (run_steps ?tail ?s3)) = globalIP ?s3 \<and>
      (\<exists>p. cleanFuncs (fst (run_steps ?tail ?s3)) = cleanFuncs ?s3 @ p)"
    by (rule run_steps_keep_ips) (auto simp: later_steps_keep_ips)
  then obtain p where keep: "localIP s' = ?lip" "globalIP s' = ?gip"
    "cleanFuncs s' = ReturnLocalIP # ReturnGlobalIP # p"
    using tail by auto
  have r: "r \<noteq> None" using err body by (simp add: Process_unfold)
  have flag: "fail s'"
    using Process_body_fail [of w s] body r by simp
  have cl: "fst (clean w s') =
      EvReturnIP ?lip #
       (case ReturnIP w ?lip of
          Some e \<Rightarrow> []
        | None \<Rightarrow> EvReturnIP ?gip #
            (case ReturnIP w ?gip of Some e \<Rightarrow> [] | None \<Rightarrow> fst (clean_loop w s' p)))"
    using flag keep
    by (simp add: clean_def clean_loop_two_returns [OF keep(1) keep(2)]
          del: clean_loop.simps)
  have fs: "fst (Process w s) = s'"
    using body by (simp add: Process_unfold)
  have evs: "fst (snd (Process w s)) =
       EvDisplay (''Launching '' @ meta_get (control s) ''label'' @ ''...'') #
       fst (snd (Process_body w s)) @ fst (clean w s')"
    using body by (simp add: Process_unfold)
  have "cleanFuncs (fst (Process w s)) = ReturnLocalIP # ReturnGlobalIP # p \<and>
     fst (snd (Process w s)) =
       EvDisplay (''Launching '' @ meta_get (control s) ''label'' @ ''...'') #
       fst (snd (Process_body w s)) @
       EvReturnIP ?lip #
         (case ReturnIP w ?lip of
            Some e \<Rightarrow> []
          | None \<Rightarrow> EvReturnIP ?gip #
              (case ReturnIP w ?gip of
                 Some e \<Rightarrow> []
               | None \<Rightarrow> fst (clean_loop w (fst (Process w s)) p)))"
    unfolding fs evs cl using keep(3) by simp
  then show ?thesis by blast
qed

text \<open>
  Claim C4. \<^verbatim>\<open>reserveIps\<close> pushes the return of the local address as soon as
  \<^verbatim>\<open>ReserveLocal\<close> has succeeded and before the answer of \<^verbatim>\<open>ReserveGlobal\<close> is
  looked at, and the return of the global address once \<^verbatim>\<open>ReserveGlobal\<close> has
  succeeded; when \<^verbatim>\<open>ReserveLocal\<close> fails, nothing is pushed and \<^verbatim>\<open>ReserveGlobal\<close> is
  not called. Called on the saga as \<^verbatim>\<open>reserveIps\<close> leaves it, the first closure calls
  \<^verbatim>\<open>ReturnIP\<close> with the address that \<^verbatim>\<open>ReserveLocal\<close> gave and the second one calls it
  with the address that \<^verbatim>\<open>ReserveGlobal\<close> gave, and each returns what that call returns.

  For a saga as the constructor returns it (flag down, nothing pushed), a fresh record
  and a pulled image: when \<^verbatim>\<open>ReserveGlobal\<close> fails after \<^verbatim>\<open>ReserveLocal\<close> succeeded,
  \<^verbatim>\<open>Process\<close> returns the error of \<^verbatim>\<open>ReserveGlobal\<close> and the last call of the run is
  the return of the local address. When both reservations succeed and \<^verbatim>\<open>Process\<close>
  returns an error from a later step, the calls after those of the body begin with the
  return of the local address; if that return succeeds, the return of the global
  address follows, and the remaining closures only after that one has succeeded.
\<close>

theorem reserveIps_pushes_each_return:
  "(snd (ReserveLocal w) = Some e \<longrightarrow>
      reserveIps w s = (s\<lparr>localIP := fst (ReserveLocal w)\<rparr>, [EvReserveLocal], Some e)) \<and>
   (snd (ReserveLocal w) = None \<and> snd (ReserveGlobal w) = Some e \<longrightarrow>
      reserveIps w s =
        (s\<lparr>localIP := fst (ReserveLocal w), cleanFuncs := cleanFuncs s @ [ReturnLocalIP],
            globalIP := fst (ReserveGlobal w)\<rparr>,
         [EvReserveLocal, EvReserveGlobal], Some e)) \<and>
   (snd (ReserveLocal w) = None \<and> snd (ReserveGlobal w) = None \<longrightarrow>
      reserveIps w s =
        (s\<lparr>localIP := fst (ReserveLocal w), globalIP := fst (ReserveGlobal w),
            cleanFuncs := cleanFuncs s @ [ReturnLocalIP, ReturnGlobalIP]\<rparr>,
         [EvReserveLocal, EvReserveGlobal], None)) \<and>
   (\<not> fail s \<and> cleanFuncs s = [] \<and>
    State (snd (data_Get_service w (AppName w) (meta_get (control s) ''name'') (service s)))
      \<in> {[], ''initialized''} \<and>
    ImagePull w (meta_get (control s) ''image'') = None \<and>
    snd (ReserveLocal w) = None \<and> snd (ReserveGlobal w) = Some e \<longrightarrow>
      snd (Process w s) =
        ([EvDisplay (''Launching '' @ meta_get (control s) ''label'' @ ''...''),
          EvDataGet (AppName w) (meta_get (control s) ''name''),
          EvImagePull (meta_get (control s) ''image''),
          EvReserveLocal, EvReserveGlobal, EvReturnIP (fst (ReserveLocal w))],
         Some e) \<and>
      cleanFuncs (fst (Process w s)) = [ReturnLocalIP]) \<and>
   (snd (ReserveLocal w) = None \<longrightarrow>
      call_cleanFunc w (fst (reserveIps w s)) ReturnLocalIP =
        (EvReturnIP (fst (ReserveLocal w)), ReturnIP w (fst (ReserveLocal w)))) \<and>
   (snd (ReserveLocal w) = None \<and> snd (ReserveGlobal w) = None \<longrightarrow>
      call_cleanFunc w (fst (reserveIps w s)) ReturnGlobalIP =
        (EvReturnIP (fst (ReserveGlobal w)), ReturnIP w (fst (ReserveGlobal w)))) \<and>
   (\<not> fail s \<and> cleanFuncs s = [] \<and>
    State (snd (data_Get_service w (AppName w) (meta_get (control s) ''name'') (service s)))
      \<in> {[], ''initialized''} \<and>
    ImagePull w (meta_get (control s) ''image'') = None \<and>
    snd (ReserveLocal w) = None \<and> snd (ReserveGlobal w) = None \<and>
    snd (snd (Process w s)) \<noteq> None \<longrightarrow>
      (\<exists>p. cleanFuncs (fst (Process w s)) = ReturnLocalIP # ReturnGlobalIP # p \<and>
         fst (snd (Process w s)) =
           EvDisplay (''Launching '' @ meta_get (control s) ''label'' @ ''...'') #
           fst (snd (Process_body w s)) @
           EvReturnIP (fst (ReserveLocal w)) #
             (case ReturnIP w (fst (ReserveLocal w)) of
                Some e \<Rightarrow> []
              | None \<Rightarrow> EvReturnIP (fst (ReserveGlobal w)) #
                  (case ReturnIP w (fst (ReserveGlobal w)) of
                     Some e \<Rightarrow> []
                   | None \<Rightarrow> fst (clean_loop w (fst (Process w s)) p)))))"
proof (intro conjI impI)
  assume "snd (ReserveLocal w) = Some e"
  then show "reserveIps w s = (s\<lparr>localIP := fst (ReserveLocal w)\<rparr>, [EvReserveLocal], Some e)"
    by (simp add: reserveIps_def Let_def case_prod_beta)
next
  assume "snd (ReserveLocal w) = None \<and> snd (ReserveGlobal w) = Some e"
  then show "reserveIps w s =
        (s\<lparr>localIP := fst (ReserveLocal w), cleanFuncs := cleanFuncs s @ [ReturnLocalIP],
            globalIP := fst (ReserveGlobal w)\<rparr>,
         [EvReserveLocal, EvReserveGlobal], Some e)"
    by (simp add: reserveIps_def Let_def case_prod_beta)
next
  assume "snd (ReserveLocal w) = None \<and> snd (ReserveGlobal w) = None"
  then show "reserveIps w s =
        (s\<lparr>localIP := fst (ReserveLocal w), globalIP := fst (ReserveGlobal w),
            cleanFuncs := cleanFuncs s @ [ReturnLocalIP, ReturnGlobalIP]\<rparr>,
         [EvReserveLocal, EvReserveGlobal], None)"
    by (simp add: reserveIps_def Let_def case_prod_beta)
next
  assume a: "\<not> fail s \<and> cleanFuncs s = [] \<and>
    State (snd (data_Get_service w (AppName w) (meta_get (control s) ''name'') (service s)))
      \<in> {[], ''initialized''} \<and>
    ImagePull w (meta_get (control s) ''image'') = None \<and>
    snd (ReserveLocal w) = None \<and> snd (ReserveGlobal w) = Some e"
  let ?s1 = "fst (loadService w s)"
  have init: "State (service ?s1) = ''initialized''"
    using a by (auto simp: loadService_def Let_def case_prod_beta)
  have s1: "control ?s1 = control s" "cleanFuncs ?s1 = []" "fail ?s1 = fail s"
    using a loadService_facts [of w s] by simp_all
  have dl: "downloadImage w ?s1 = (?s1, [EvImagePull (meta_get (control s) ''image'')], None)"
    using a s1 by (simp add: downloadImage_facts)
  let ?s3 = "?s1\<lparr>localIP := fst (ReserveLocal w), cleanFuncs := [ReturnLocalIP],
                   globalIP := fst (ReserveGlobal w)\<rparr>"
  have rs: "reserveIps w ?s1 = (?s3, [EvReserveLocal, EvReserveGlobal], Some e)"
    using a s1 by (simp add: reserveIps_def Let_def case_prod_beta)
  have body: "Process_body w s =
      (?s3\<lparr>fail := True\<rparr>,
       [EvDataGet (AppName w) (meta_get (control s) ''name''),
        EvImagePull (meta_get (control s) ''image''), EvReserveLocal, EvReserveGlobal],
       Some e)"
    using init
    by (simp add: Process_body_unfold
          run_steps_go [where f = "downloadImage w" and s = "?s1", OF dl]
          run_steps_stop [where f = "reserveIps w" and s = "?s1", OF rs]
        del: run_steps.simps)
  show "snd (Process w s) =
        ([EvDisplay (''Launching '' @ meta_get (control s) ''label'' @ ''...''),
          EvDataGet (AppName w) (meta_get (control s) ''name''),
          EvImagePull (meta_get (control s) ''image''),
          EvReserveLocal, EvReserveGlobal, EvReturnIP (fst (ReserveLocal w))],
         Some e)"
    by (cases "ReturnIP w (fst (ReserveLocal w))")
       (simp_all add: Process_unfold body clean_def)
  show "cleanFuncs (fst (Process w s)) = [ReturnLocalIP]"
    by (simp add: Process_unfold body)
next
  assume "snd (ReserveLocal w) = None"
  then show "call_cleanFunc w (fst (reserveIps w s)) ReturnLocalIP =
        (EvReturnIP (fst (ReserveLocal w)), ReturnIP w (fst (ReserveLocal w)))"
    by (simp add: reserveIps_def Let_def case_prod_beta split: option.splits)
next
  assume "snd (ReserveLocal w) = None \<and> snd (ReserveGlobal w) = None"
  then show "call_cleanFunc w (fst (reserveIps w s)) ReturnGlobalIP =
        (EvReturnIP (fst (ReserveGlobal w)), ReturnIP w (fst (ReserveGlobal w)))"
    by (simp add: reserveIps_def Let_def case_prod_beta)
next
  assume "\<not> fail s \<and> cleanFuncs s = [] \<and>
    State (snd (data_Get_service w (AppName w) (meta_get (control s) ''name'') (service s)))
      \<in> {[], ''initialized''} \<and>
    ImagePull w (meta_get (control s) ''image'') = None \<and>
    snd (ReserveLocal w) = None \<and> snd (ReserveGlobal w) = None \<and>
    snd (snd (Process w s)) \<noteq> None"
  then show "\<exists>p. cleanFuncs (fst (Process w s)) = ReturnLocalIP # ReturnGlobalIP # p \<and>
         fst (snd (Process w s)) =
           EvDisplay (''Launching '' @ meta_get (control s) ''label'' @ ''...'') #
           fst (snd (Process_body w s)) @
           EvReturnIP (fst (ReserveLocal w)) #
             (case ReturnIP w (fst (ReserveLocal w)) of
                Some e \<Rightarrow> []
              | None \<Rightarrow> EvReturnIP (fst (ReserveGlobal w)) #
                  (case ReturnIP w (fst (ReserveGlobal w)) of
                     Some e \<Rightarrow> []
                   | None \<Rightarrow> fst (clean_loop w (fst (Process w s)) p)))"
    using Process_returns_both_addresses [of s w] by blast
qed

theorem reserveIps_pushes_each_return_witness:
  "\<not> fail saga0 \<and> cleanFuncs saga0 = [] \<and>
   State (snd (data_Get_service world_no_global (AppName world_no_global)
                 (meta_get (control saga0) ''name'') (service saga0))) \<in> {[], ''initialized''} \<and>
   ImagePull world_no_global (meta_get (control saga0) ''image'') = None \<and>
   ReserveLocal world_no_global = (''192.168.0.2'', None) \<and>
   ReserveGlobal world_no_global = (nil_IP, Some ''no global ip'') \<and>
   snd (Process world_no_global saga0) =
     ([EvDisplay ''Launching data.db...'', EvDataGet ''app'' ''data.db'',
       EvImagePull ''nanobox/postgresql'', EvReserveLocal, EvReserveGlobal,
       EvReturnIP ''192.168.0.2''],
      Some ''no global ip'') \<and>
   State (snd (data_Get_service world_no_nat (AppName world_no_nat)
                 (meta_get (control saga0) ''name'') (service saga0))) \<in> {[], ''initialized''} \<and>
   ImagePull world_no_nat (meta_get (control saga0) ''image'') = None \<and>
   ReserveLocal world_no_nat = (''192.168.0.2'', None) \<and>
   ReserveGlobal world_no_nat = (''10.0.0.2'', None) \<and>
   ReturnIP world_no_nat ''192.168.0.2'' = None \<and>
   snd (snd (Process world_no_nat saga0)) = Some ''nat failed'' \<and>
   call_cleanFunc world_no_nat (fst (reserveIps world_no_nat saga0)) ReturnGlobalIP =
     (EvReturnIP ''10.0.0.2'', None) \<and>
   (\<exists>rest. fst (snd (Process world_no_nat saga0)) =
      EvDisplay ''Launching data.db...'' # fst (snd (Process_body world_no_nat saga0)) @
      EvReturnIP ''192.168.0.2'' # EvReturnIP ''10.0.0.2'' # rest)"
proof -
  have first: "\<not> fail saga0 \<and> cleanFuncs saga0 = [] \<and>
     State (snd (data_Get_service world_no_global (AppName world_no_global)
                   (meta_get (control saga0) ''name'') (service saga0))) \<in> {[], ''initialized''} \<and>
     ImagePull world_no_global (meta_get (control saga0) ''image'') = None \<and>
     ReserveLocal world_no_global = (''192.168.0.2'', None) \<and>
     ReserveGlobal world_no_global = (nil_IP, Some ''no global ip'') \<and>
     snd (Process world_no_global saga0) =
       ([EvDisplay ''Launching data.db...'', EvDataGet ''app'' ''data.db'',
         EvImagePull ''nanobox/postgresql'', EvReserveLocal, EvReserveGlobal,
         EvReturnIP ''192.168.0.2''],
        Some ''no global ip'')"
    using reserveIps_pushes_each_return [of world_no_global "''no global ip''" saga0]
    by (simp add: sample_defs)
  have hyps: "\<not> fail saga0" "cleanFuncs saga0 = []"
    "State (snd (data_Get_service world_no_nat (AppName world_no_nat)
                   (meta_get (control saga0) ''name'') (service saga0))) \<in> {[], ''initialized''}"
    "ImagePull world_no_nat (meta_get (control saga0) ''image'') = None"
    "ReserveLocal world_no_nat = (''192.168.0.2'', None)"
    "ReserveGlobal world_no_nat = (''10.0.0.2'', None)"
    "ReturnIP world_no_nat ''192.168.0.2'' = None"
    "meta_get (control saga0) ''label'' = ''data.db''"
    by (simp_all add: sample_defs)
  have err: "snd (snd (Process world_no_nat saga0)) = Some ''nat failed''"
    by (simp add: Process_def Process_body_def step_defs clean_def sample_defs Let_def)
  note inst = reserveIps_pushes_each_return [of world_no_nat "''nat failed''" saga0]
  have both: "snd (ReserveLocal world_no_nat) = None \<and> snd (ReserveGlobal world_no_nat) = None"
    using hyps(5,6) by simp
  from inst both
  have "call_cleanFunc world_no_nat (fst (reserveIps world_no_nat saga0)) ReturnGlobalIP =
      (EvReturnIP (fst (ReserveGlobal world_no_nat)),
       ReturnIP world_no_nat (fst (ReserveGlobal world_no_nat)))"
    by blast
  then have closure:
    "call_cleanFunc world_no_nat (fst (reserveIps world_no_nat saga0)) ReturnGlobalIP =
       (EvReturnIP ''10.0.0.2'', None)"
    by (simp add: world_no_nat_def world_ok_def)
  have pre: "\<not> fail saga0 \<and> cleanFuncs saga0 = [] \<and>
      State (snd (data_Get_service world_no_nat (AppName world_no_nat)
                    (meta_get (control saga0) ''name'') (service saga0)))
        \<in> {[], ''initialized''} \<and>
      ImagePull world_no_nat (meta_get (control saga0) ''image'') = None \<and>
      snd (ReserveLocal world_no_nat) = None \<and> snd (ReserveGlobal world_no_nat) = None \<and>
      snd (snd (Process world_no_nat saga0)) \<noteq> None"
    using hyps(1-4) both err by simp
  from inst pre
  have "\<exists>p. cleanFuncs (fst (Process world_no_nat saga0)) = ReturnLocalIP # ReturnGlobalIP # p \<and>
      fst (snd (Process world_no_nat saga0)) =
        EvDisplay (''Launching '' @ meta_get (control saga0) ''label'' @ ''...'') #
        fst (snd (Process_body world_no_nat saga0)) @
        EvReturnIP (fst (ReserveLocal world_no_nat)) #
          (case ReturnIP world_no_nat (fst (ReserveLocal world_no_nat)) of
             Some e \<Rightarrow> []
           | None \<Rightarrow> EvReturnIP (fst (ReserveGlobal world_no_nat)) #
               (case ReturnIP world_no_nat (fst (ReserveGlobal world_no_nat)) of
                  Some e \<Rightarrow> []
                | None \<Rightarrow> fst (clean_loop world_no_nat (fst (Process world_no_nat saga0)) p)))"
    by blast
  then obtain p where "fst (snd (Process world_no_nat saga0)) =
        EvDisplay (''Launching '' @ meta_get (control saga0) ''label'' @ ''...'') #
        fst (snd (Process_body world_no_nat saga0)) @
        EvReturnIP (fst (ReserveLocal world_no_nat)) #
          (case ReturnIP world_no_nat (fst (ReserveLocal world_no_nat)) of
             Some e \<Rightarrow> []
           | None \<Rightarrow> EvReturnIP (fst (ReserveGlobal world_no_nat)) #
               (case ReturnIP world_no_nat (fst (ReserveGlobal world_no_nat)) of
                  Some e \<Rightarrow> []
                | None \<Rightarrow> fst (clean_loop world_no_nat (fst (Process world_no_nat saga0)) p)))"
    by blast
  then have "\<exists>rest. fst (snd (Process world_no_nat saga0)) =
      EvDisplay ''Launching data.db...'' # fst (snd (Process_body world_no_nat saga0)) @
      EvReturnIP ''192.168.0.2'' # EvReturnIP ''10.0.0.2'' # rest"
    using hyps(5-8) by simp
  with first hyps(3-7) err closure show ?thesis by blast
qed

subsection \<open>Persisting the service\<close>

lemma run_steps_no_put:
  assumes "\<And>f t. f \<in> set fs \<Longrightarrow> filter is_service_put (fst (snd (f t))) = []"
  shows "filter is_service_put (fst (snd (run_steps fs s))) = []"
  using assms
proof (induction fs arbitrary: s)
  case Nil
  then show ?case by simp
next
  case (Cons f fs)
  obtain s1 evs1 r1 where f: "f s = (s1, evs1, r1)" by (cases "f s")
  have e1: "filter is_service_put evs1 = []" using Cons.prems [of f s] f by simp
  show ?case
  proof (cases r1)
    case None
    obtain s2 evs2 r2 where rest: "run_steps fs s1 = (s2, evs2, r2)"
      by (cases "run_steps fs s1")
    have "filter is_service_put (fst (snd (run_steps fs s1))) = []"
      using Cons.IH Cons.prems by simp
    then show ?thesis using f None e1 rest by simp
  next
    case (Some e)
    then show ?thesis using f e1 by simp
  qed
qed

lemma run_steps_five:
  "run_steps [f1, f2, f3, f4, f5] s1 = (s6, evs, None) \<longleftrightarrow>
     (\<exists>s2 s3 s4 s5 e1 e2 e3 e4 e5.
        f1 s1 = (s2, e1, None) \<and> f2 s2 = (s3, e2, None) \<and> f3 s3 = (s4, e3, None) \<and>
        f4 s4 = (s5, e4, None) \<and> f5 s5 = (s6, e5, None) \<and> evs = e1 @ e2 @ e3 @ e4 @ e5)"
  by (auto split: prod.splits option.splits)

lemma pre_steps_no_put:
  "filter is_service_put
     (fst (snd (run_steps [downloadImage w, reserveIps w, launchContainer w, attachNetwork w,
                           planService w] t))) = []"
  by (rule run_steps_no_put)
     (auto simp: downloadImage_facts reserveIps_facts launchContainer_facts attachNetwork_facts
        planService_facts)

lemma post_steps_puts:
  "(case fst (Unmarshal_Plan w (plan t) (Plan (service t))) of
      Some e \<Rightarrow> snd (run_steps [persistService w, addEnvVars w] t) =
                  ([], Some (''persistService:'' @ e))
    | None \<Rightarrow> length (filter is_service_put
                 (fst (snd (run_steps [persistService w, addEnvVars w] t)))) = 1)"
proof -
  obtain t1 ev1 r1 where p: "persistService w t = (t1, ev1, r1)"
    by (cases "persistService w t")
  obtain t2 ev2 r2 where a: "addEnvVars w t1 = (t2, ev2, r2)"
    by (cases "addEnvVars w t1")
  have a': "filter is_service_put ev2 = []" using addEnvVars_facts [of w t1] a by simp
  show ?thesis
    using persistService_facts [of w t] p a a'
    by (cases r1; cases r2) (auto split: option.splits)
qed

lemma Process_body_split:
  "Process_body w s =
     (if State (service (fst (loadService w s))) \<noteq> ''initialized''
      then (fst (loadService w s), [EvDataGet (AppName w) (meta_get (control s) ''name'')], None)
      else
        (case run_steps [downloadImage w, reserveIps w, launchContainer w, attachNetwork w,
                         planService w] (fst (loadService w s)) of
           (s6, evs6, Some e) \<Rightarrow>
             (s6, EvDataGet (AppName w) (meta_get (control s) ''name'') # evs6, Some e)
         | (s6, evs6, None) \<Rightarrow>
             (case run_steps [persistService w, addEnvVars w] s6 of
                (s8, evs8, r) \<Rightarrow>
                  (s8, EvDataGet (AppName w) (meta_get (control s) ''name'') # evs6 @ evs8, r))))"
proof -
  have "[downloadImage w, reserveIps w, launchContainer w, attachNetwork w, planService w,
         persistService w, addEnvVars w] =
        [downloadImage w, reserveIps w, launchContainer w, attachNetwork w, planService w] @
        [persistService w, addEnvVars w]"
    by simp
  then show ?thesis
    unfolding Process_body_unfold
    by (simp only: run_steps_append) (simp split: prod.splits option.splits del: run_steps.simps)
qed

text \<open>
  Claim C5. A run of \<^verbatim>\<open>Process\<close> writes the service record at most once. When it
  writes it, the loaded record was in the state \<^verbatim>\<open>initialized\<close>, the steps
  \<^verbatim>\<open>downloadImage\<close>, \<^verbatim>\<open>reserveIps\<close>, \<^verbatim>\<open>launchContainer\<close>, \<^verbatim>\<open>attachNetwork\<close> and
  \<^verbatim>\<open>planService\<close> have returned \<^verbatim>\<open>nil\<close> one after the other (\<^verbatim>\<open>loadService\<close> always
  does), and the output of the plan hook has parsed. When these steps succeed and the
  output does not parse, \<^verbatim>\<open>Process\<close> returns the parse error behind the prefix
  \<^verbatim>\<open>persistService:\<close> and the record is not written.
\<close>

theorem Process_writes_service_once:
  "length (filter is_service_put (fst (snd (Process w s)))) \<le> 1 \<and>
   ((\<exists>ev \<in> set (fst (snd (Process w s))). is_service_put ev) \<longrightarrow>
      State (service (fst (loadService w s))) = ''initialized'' \<and>
      (\<exists>s2 s3 s4 s5 s6 e1 e2 e3 e4 e5.
         downloadImage w (fst (loadService w s)) = (s2, e1, None) \<and>
         reserveIps w s2 = (s3, e2, None) \<and>
         launchContainer w s3 = (s4, e3, None) \<and>
         attachNetwork w s4 = (s5, e4, None) \<and>
         planService w s5 = (s6, e5, None) \<and>
         fst (Unmarshal_Plan w (plan s6) (Plan (service s6))) = None)) \<and>
   (\<forall>s2 s3 s4 s5 s6 e1 e2 e3 e4 e5 e.
      State (service (fst (loadService w s))) = ''initialized'' \<and>
      downloadImage w (fst (loadService w s)) = (s2, e1, None) \<and>
      reserveIps w s2 = (s3, e2, None) \<and>
      launchContainer w s3 = (s4, e3, None) \<and>
      attachNetwork w s4 = (s5, e4, None) \<and>
      planService w s5 = (s6, e5, None) \<and>
      fst (Unmarshal_Plan w (plan s6) (Plan (service s6))) = Some e \<longrightarrow>
        snd (snd (Process w s)) = Some (''persistService:'' @ e) \<and>
        filter is_service_put (fst (snd (Process w s))) = [])"
proof -
  let ?s1 = "fst (loadService w s)"
  let ?pre = "[downloadImage w, reserveIps w, launchContainer w, attachNetwork w, planService w]"
  let ?post = "[persistService w, addEnvVars w]"
  let ?puts = "filter is_service_put (fst (snd (Process w s)))"
  have puts_body: "?puts = filter is_service_put (fst (snd (Process_body w s)))"
    by (simp add: Process_unfold clean_no_put)
  have res_body: "snd (snd (Process w s)) = snd (snd (Process_body w s))"
    by (simp add: Process_unfold)
  obtain s6 evs6 r6 where pre: "run_steps ?pre ?s1 = (s6, evs6, r6)"
    by (cases "run_steps ?pre ?s1")
  have evs6: "filter is_service_put evs6 = []"
    using pre_steps_no_put [of w ?s1] pre by simp
  obtain s8 evs8 r8 where post: "run_steps ?post s6 = (s8, evs8, r8)"
    by (cases "run_steps ?post s6")
  note pp = post_steps_puts [of w s6]
  have puts_cases:
    "?puts = (if State (service ?s1) = ''initialized'' \<and> r6 = None
              then filter is_service_put evs8 else [])"
    using pre post evs6
    by (cases r6) (simp_all add: puts_body Process_body_split del: run_steps.simps)
  have evs8: "length (filter is_service_put evs8) \<le> 1"
    using pp post by (cases "fst (Unmarshal_Plan w (plan s6) (Plan (service s6)))") simp_all
  have one: "length ?puts \<le> 1"
    using puts_cases evs8 by simp
  have only_after: "(\<exists>ev \<in> set (fst (snd (Process w s))). is_service_put ev) \<longrightarrow>
      State (service ?s1) = ''initialized'' \<and>
      (\<exists>s2 s3 s4 s5 s6 e1 e2 e3 e4 e5.
         downloadImage w ?s1 = (s2, e1, None) \<and>
         reserveIps w s2 = (s3, e2, None) \<and>
         launchContainer w s3 = (s4, e3, None) \<and>
         attachNetwork w s4 = (s5, e4, None) \<and>
         planService w s5 = (s6, e5, None) \<and>
         fst (Unmarshal_Plan w (plan s6) (Plan (service s6))) = None)"
  proof
    assume "\<exists>ev \<in> set (fst (snd (Process w s))). is_service_put ev"
    then have ne: "?puts \<noteq> []" by (simp add: filter_empty_conv)
    then have init: "State (service ?s1) = ''initialized''" and r6: "r6 = None"
      and ne8: "filter is_service_put evs8 \<noteq> []"
      using puts_cases by (auto split: if_splits)
    have parse: "fst (Unmarshal_Plan w (plan s6) (Plan (service s6))) = None"
      using pp post ne8
      by (cases "fst (Unmarshal_Plan w (plan s6) (Plan (service s6)))") simp_all
    from pre r6 have "run_steps ?pre ?s1 = (s6, evs6, None)" by simp
    then obtain s2 s3 s4 s5 e1 e2 e3 e4 e5 where
      "downloadImage w ?s1 = (s2, e1, None)" "reserveIps w s2 = (s3, e2, None)"
      "launchContainer w s3 = (s4, e3, None)" "attachNetwork w s4 = (s5, e4, None)"
      "planService w s5 = (s6, e5, None)"
      unfolding run_steps_five by blast
    with init parse show "State (service ?s1) = ''initialized'' \<and>
      (\<exists>s2 s3 s4 s5 s6 e1 e2 e3 e4 e5.
         downloadImage w ?s1 = (s2, e1, None) \<and>
         reserveIps w s2 = (s3, e2, None) \<and>
         launchContainer w s3 = (s4, e3, None) \<and>
         attachNetwork w s4 = (s5, e4, None) \<and>
         planService w s5 = (s6, e5, None) \<and>
         fst (Unmarshal_Plan w (plan s6) (Plan (service s6))) = None)"
      by blast
  qed
  have parse_failure: "\<forall>s2 s3 s4 s5 t6 e1 e2 e3 e4 e5 e.
      State (service ?s1) = ''initialized'' \<and>
      downloadImage w ?s1 = (s2, e1, None) \<and>
      reserveIps w s2 = (s3, e2, None) \<and>
      launchContainer w s3 = (s4, e3, None) \<and>
      attachNetwork w s4 = (s5, e4, None) \<and>
      planService w s5 = (t6, e5, None) \<and>
      fst (Unmarshal_Plan w (plan t6) (Plan (service t6))) = Some e \<longrightarrow>
        snd (snd (Process w s)) = Some (''persistService:'' @ e) \<and> ?puts = []"
  proof (intro allI impI, elim conjE)
    fix s2 s3 s4 s5 t6 e1 e2 e3 e4 e5 e
    assume init: "State (service ?s1) = ''initialized''"
      and chain: "downloadImage w ?s1 = (s2, e1, None)" "reserveIps w s2 = (s3, e2, None)"
        "launchContainer w s3 = (s4, e3, None)" "attachNetwork w s4 = (s5, e4, None)"
        "planService w s5 = (t6, e5, None)"
      and bad: "fst (Unmarshal_Plan w (plan t6) (Plan (service t6))) = Some e"
    have "run_steps ?pre ?s1 = (t6, e1 @ e2 @ e3 @ e4 @ e5, None)"
      unfolding run_steps_five using chain by blast
    with pre have eq: "s6 = t6" "r6 = None" by simp_all
    have p8: "evs8 = []" "r8 = Some (''persistService:'' @ e)"
      using pp post bad eq by simp_all
    have "snd (snd (Process_body w s)) = r8"
      using init pre post eq by (simp add: Process_body_split del: run_steps.simps)
    then show "snd (snd (Process w s)) = Some (''persistService:'' @ e) \<and> ?puts = []"
      using res_body p8 puts_cases by simp
  qed
  from one only_after parse_failure show ?thesis by (intro conjI)
qed

theorem Process_writes_service_once_witness:
  "State (service (fst (loadService world_bad_plan saga0))) = ''initialized'' \<and>
   (\<exists>s6 evs6.
      run_steps [downloadImage world_bad_plan, reserveIps world_bad_plan,
                 launchContainer world_bad_plan, attachNetwork world_bad_plan,
                 planService world_bad_plan] (fst (loadService world_bad_plan saga0)) =
        (s6, evs6, None) \<and>
      fst (Unmarshal_Plan world_bad_plan (plan s6) (Plan (service s6))) =
        Some ''unexpected end of JSON input'') \<and>
   snd (snd (Process world_bad_plan saga0)) =
     Some ''persistService:unexpected end of JSON input'' \<and>
   filter is_service_put (fst (snd (Process world_bad_plan saga0))) = [] \<and>
   length (filter is_service_put (fst (snd (Process world_ok saga0)))) = 1 \<and>
   (\<exists>ev \<in> set (fst (snd (Process world_ok saga0))). is_service_put ev) \<and>
   snd (snd (Process world_ok saga0)) = None"
proof -
  let ?w = world_bad_plan
  let ?s1 = "fst (loadService ?w saga0)"
  let ?pre = "[downloadImage ?w, reserveIps ?w, launchContainer ?w, attachNetwork ?w,
               planService ?w]"
  have ok: "map is_service_put (fst (snd (Process world_ok saga0))) =
      [False, False, False, False, False, False, False, False, False, False, False, False,
       True, False, False] \<and> snd (snd (Process world_ok saga0)) = None"
    by (simp add: Process_def Process_body_def step_defs clean_def sample_defs Let_def)
  have init: "State (service ?s1) = ''initialized''"
    by (simp add: step_defs sample_defs Let_def)
  have pre: "snd (snd (run_steps ?pre ?s1)) = None \<and>
      fst (Unmarshal_Plan ?w (plan (fst (run_steps ?pre ?s1)))
             (Plan (service (fst (run_steps ?pre ?s1))))) = Some ''unexpected end of JSON input''"
    by (simp add: step_defs sample_defs Let_def)
  obtain s6 evs6 where run: "run_steps ?pre ?s1 = (s6, evs6, None)"
    and parse: "fst (Unmarshal_Plan ?w (plan s6) (Plan (service s6))) =
      Some ''unexpected end of JSON input''"
    using pre by (cases "run_steps ?pre ?s1") (simp del: run_steps.simps)
  from run obtain s2 s3 s4 s5 e1 e2 e3 e4 e5 where chain:
    "downloadImage ?w ?s1 = (s2, e1, None)" "reserveIps ?w s2 = (s3, e2, None)"
    "launchContainer ?w s3 = (s4, e3, None)" "attachNetwork ?w s4 = (s5, e4, None)"
    "planService ?w s5 = (s6, e5, None)"
    unfolding run_steps_five by blast
  have bad: "snd (snd (Process ?w saga0)) = Some ''persistService:unexpected end of JSON input'' \<and>
      filter is_service_put (fst (snd (Process ?w saga0))) = []"
    using Process_writes_service_once [of ?w saga0] init chain parse by fastforce
  have len: "length (filter is_service_put (fst (snd (Process world_ok saga0)))) \<le> 1"
    using Process_writes_service_once [of world_ok saga0] by blast
  have ex: "\<exists>ev \<in> set (fst (snd (Process world_ok saga0))). is_service_put ev"
  proof -
    have "True \<in> set (map is_service_put (fst (snd (Process world_ok saga0))))"
      using ok by simp
    then show ?thesis by auto
  qed
  then have "filter is_service_put (fst (snd (Process world_ok saga0))) \<noteq> []"
    by (simp add: filter_empty_conv)
  with len have one: "length (filter is_service_put (fst (snd (Process world_ok saga0)))) = 1"
    by (cases "filter is_service_put (fst (snd (Process world_ok saga0)))") simp_all
  from run parse have ex6: "\<exists>s6 evs6. run_steps ?pre ?s1 = (s6, evs6, None) \<and>
      fst (Unmarshal_Plan ?w (plan s6) (Plan (service s6))) = Some ''unexpected end of JSON input''"
    by blast
  from init ex6 bad one ex ok show ?thesis by (intro conjI) simp_all
qed

subsection \<open>Environment variables\<close>

lemmas env_sample_defs =
  saga_of_def service_of_def user_alice_def user_bob_def user_alice2_def env_prefix_def
  ToUpper_def upper_char_def Replace_dots_def pass_key_def

lemma suffix_PASS_neq:
  "U @ ''_PASS'' \<noteq> ''USER''" "U @ ''_PASS'' \<noteq> ''PASS''" "U @ ''_PASS'' \<noteq> ''HOST''"
  "U @ ''_PASS'' \<noteq> ''USERS''"
proof -
  have len: "\<And>x. U @ ''_PASS'' = x \<Longrightarrow> length x = length U + 5"
    by auto
  show "U @ ''_PASS'' \<noteq> ''USER''" using len [of "''USER''"] by auto
  show "U @ ''_PASS'' \<noteq> ''PASS''" using len [of "''PASS''"] by auto
  show "U @ ''_PASS'' \<noteq> ''HOST''" using len [of "''HOST''"] by auto
  show "U @ ''_PASS'' \<noteq> ''USERS''" using len [of "''USERS''"] by auto
qed

lemma pass_key_neq [simp]:
  "pass_key P u \<noteq> P @ ''_USER''" "pass_key P u \<noteq> P @ ''_PASS''"
  "pass_key P u \<noteq> P @ ''_HOST''" "pass_key P u \<noteq> P @ ''_USERS''"
  "P @ ''_USER'' \<noteq> pass_key P u" "P @ ''_PASS'' \<noteq> pass_key P u"
  "P @ ''_HOST'' \<noteq> pass_key P u" "P @ ''_USERS'' \<noteq> pass_key P u"
  using suffix_PASS_neq [of "ToUpper (Username u)"] by (auto simp: pass_key_def)

lemma user_loop_Cons:
  "user_loop P d (u # us) (env, acc) =
     user_loop P d us
       (if Username u = d
        then env(pass_key P u \<mapsto> Password u, P @ ''_USER'' \<mapsto> Username u,
                 P @ ''_PASS'' \<mapsto> Password u)
        else env(pass_key P u \<mapsto> Password u),
        acc @ [Username u])"
  by (simp add: Let_def pass_key_def)

lemma user_loop_users:
  "snd (user_loop P d us (env, acc)) = acc @ map Username us"
proof (induction us arbitrary: env acc)
  case Nil
  then show ?case by simp
next
  case (Cons u us)
  show ?case unfolding user_loop_Cons Cons.IH by simp
qed

lemma user_loop_USER:
  "fst (user_loop P d us (env, acc)) (P @ ''_USER'') =
     (if \<exists>u \<in> set us. Username u = d then Some d else env (P @ ''_USER''))"
proof (induction us arbitrary: env acc)
  case Nil
  then show ?case by simp
next
  case (Cons u us)
  show ?case unfolding user_loop_Cons Cons.IH by simp
qed

lemma user_loop_PASS:
  "fst (user_loop P d us (env, acc)) (P @ ''_PASS'') =
     (if \<exists>u \<in> set us. Username u = d
      then Some (Password (last (filter (\<lambda>u. Username u = d) us)))
      else env (P @ ''_PASS''))"
proof (induction us arbitrary: env acc)
  case Nil
  then show ?case by simp
next
  case (Cons u us)
  show ?case unfolding user_loop_Cons Cons.IH by (simp add: filter_empty_conv)
qed

lemma user_loop_pass_key:
  assumes "k \<noteq> P @ ''_USER''" "k \<noteq> P @ ''_PASS''"
  shows "fst (user_loop P d us (env, acc)) k =
     (if \<exists>u \<in> set us. pass_key P u = k
      then Some (Password (last (filter (\<lambda>u. pass_key P u = k) us)))
      else env k)"
proof (induction us arbitrary: env acc)
  case Nil
  then show ?case by simp
next
  case (Cons u us)
  show ?case unfolding user_loop_Cons Cons.IH using assms by (simp add: filter_empty_conv)
qed


lemma project_env_unfold:
  "project_env svc env0 =
     (if Users (Plan svc) \<noteq> []
      then (fst (user_loop (env_prefix (Name svc)) (DefaultUser (Plan svc)) (Users (Plan svc))
                  (env0(env_prefix (Name svc) @ ''_HOST'' \<mapsto> InternalIP svc), [])))
             (env_prefix (Name svc) @ ''_USERS'' \<mapsto> Join (map Username (Users (Plan svc))) '' '')
      else env0(env_prefix (Name svc) @ ''_HOST'' \<mapsto> InternalIP svc))"
proof -
  let ?P = "env_prefix (Name svc)"
  let ?loop = "user_loop ?P (DefaultUser (Plan svc)) (Users (Plan svc))
                 (env0(?P @ ''_HOST'' \<mapsto> InternalIP svc), [])"
  have users: "snd ?loop = map Username (Users (Plan svc))"
    by (simp add: user_loop_users)
  show ?thesis
  proof (cases "Users (Plan svc)")
    case Nil
    then show ?thesis by (simp add: project_env_def)
  next
    case (Cons u us)
    then show ?thesis
      using users by (simp add: project_env_def Let_def case_prod_beta del: user_loop.simps)
  qed
qed

lemma project_env_apply:
  "project_env svc env0 k =
     (let P = env_prefix (Name svc); us = Users (Plan svc); d = DefaultUser (Plan svc) in
      if k = P @ ''_USERS'' \<and> us \<noteq> [] then Some (Join (map Username us) '' '')
      else if k = P @ ''_PASS'' \<and> (\<exists>u \<in> set us. Username u = d)
        then Some (Password (last (filter (\<lambda>u. Username u = d) us)))
      else if k = P @ ''_USER'' \<and> (\<exists>u \<in> set us. Username u = d) then Some d
      else if \<exists>u \<in> set us. pass_key P u = k
        then Some (Password (last (filter (\<lambda>u. pass_key P u = k) us)))
      else if k = P @ ''_HOST'' then Some (InternalIP svc)
      else env0 k)"
proof -
  let ?P = "env_prefix (Name svc)"
  consider (users) "k = ?P @ ''_USERS''" | (pass) "k = ?P @ ''_PASS''" | (user) "k = ?P @ ''_USER''"
    | (other) "k \<noteq> ?P @ ''_USERS''" "k \<noteq> ?P @ ''_PASS''" "k \<noteq> ?P @ ''_USER''"
    by blast
  then show ?thesis
  proof cases
    case users
    then show ?thesis
      by (simp add: project_env_unfold Let_def user_loop_pass_key del: user_loop.simps)
  next
    case pass
    then show ?thesis
      by (simp add: project_env_unfold Let_def user_loop_PASS del: user_loop.simps)
  next
    case user
    then show ?thesis
      by (simp add: project_env_unfold Let_def user_loop_USER del: user_loop.simps)
  next
    case other
    then show ?thesis
      by (simp add: project_env_unfold Let_def user_loop_pass_key del: user_loop.simps)
  qed
qed

lemma project_env_dom:
  "dom (project_env svc env0) =
     dom env0 \<union> {env_prefix (Name svc) @ ''_HOST''} \<union>
     pass_key (env_prefix (Name svc)) ` set (Users (Plan svc)) \<union>
     (if \<exists>u \<in> set (Users (Plan svc)). Username u = DefaultUser (Plan svc)
      then {env_prefix (Name svc) @ ''_USER'', env_prefix (Name svc) @ ''_PASS''} else {}) \<union>
     (if Users (Plan svc) \<noteq> [] then {env_prefix (Name svc) @ ''_USERS''} else {})"
proof (rule set_eqI)
  fix k
  let ?P = "env_prefix (Name svc)"
  let ?us = "Users (Plan svc)"
  let ?rhs = "dom env0 \<union> {?P @ ''_HOST''} \<union> pass_key ?P ` set ?us \<union>
     (if \<exists>u \<in> set ?us. Username u = DefaultUser (Plan svc)
      then {?P @ ''_USER'', ?P @ ''_PASS''} else {}) \<union>
     (if ?us \<noteq> [] then {?P @ ''_USERS''} else {})"
  have img: "k \<in> pass_key ?P ` set ?us \<longleftrightarrow> (\<exists>u \<in> set ?us. pass_key ?P u = k)"
    by auto
  consider (users) "k = ?P @ ''_USERS''" | (pass) "k = ?P @ ''_PASS''"
    | (user) "k = ?P @ ''_USER''" | (host) "k = ?P @ ''_HOST''"
    | (other) "k \<noteq> ?P @ ''_USERS''" "k \<noteq> ?P @ ''_PASS''" "k \<noteq> ?P @ ''_USER''"
        "k \<noteq> ?P @ ''_HOST''"
    by blast
  then show "k \<in> dom (project_env svc env0) \<longleftrightarrow> k \<in> ?rhs"
  proof cases
    case users
    have "k \<notin> pass_key ?P ` set ?us" unfolding img using users by simp
    then show ?thesis
      using users by (simp add: dom_def project_env_apply Let_def)
  next
    case pass
    have "k \<notin> pass_key ?P ` set ?us" unfolding img using pass by simp
    then show ?thesis
      using pass by (simp add: dom_def project_env_apply Let_def)
  next
    case user
    have "k \<notin> pass_key ?P ` set ?us" unfolding img using user by simp
    then show ?thesis
      using user by (simp add: dom_def project_env_apply Let_def)
  next
    case host
    then show ?thesis
      by (simp add: dom_def project_env_apply Let_def)
  next
    case other
    show ?thesis
    proof (cases "\<exists>u \<in> set ?us. pass_key ?P u = k")
      case True
      then have "k \<in> pass_key ?P ` set ?us" unfolding img .
      then show ?thesis
        using other True by (simp add: dom_def project_env_apply Let_def)
    next
      case False
      then have "k \<notin> pass_key ?P ` set ?us" unfolding img .
      then show ?thesis
        using other False by (simp add: dom_def project_env_apply Let_def)
    qed
  qed
qed

lemma addEnvVars_unfold:
  "addEnvVars w s =
     (s,
      [EvDataGet (AppName w @ ''_meta'') ''env'',
       EvDataPut (AppName w @ ''_meta'') ''env''
         (StoredEnvVars (project_env (service s)
            (snd (data_Get_env w (AppName w @ ''_meta'') ''env''))))],
      data_Put w (AppName w @ ''_meta'') ''env''
        (StoredEnvVars (project_env (service s)
           (snd (data_Get_env w (AppName w @ ''_meta'') ''env'')))))"
  by (simp add: addEnvVars_def Let_def case_prod_beta)

text \<open>
  Claim C6, with the condition on the default user as the code has it. \<^verbatim>\<open>addEnvVars\<close>
  reads the table of the application, changes it and puts it back; the table \<open>T\<close> that
  it puts is a function of the service record and of the table \<open>env0\<close> that was read.
  With \<open>P\<close> the upper-cased name of the service with every dot replaced by an
  underscore, the keys of \<open>T\<close> are those of \<open>env0\<close> and exactly these: \<open>P_HOST\<close>; the
  key \<open>P_<USERNAME>_PASS\<close> of every user of the plan; \<open>P_USER\<close> and \<open>P_PASS\<close> if and
  only if the default user of the plan is the username of one of its users; \<open>P_USERS\<close>
  if and only if the plan has a user. \<open>P_HOST\<close> holds the internal address, the key of a
  user the password of the last user of the plan with that key, \<open>P_USER\<close> and \<open>P_PASS\<close>
  the default user and the password of the last user of that name, \<open>P_USERS\<close> the
  usernames in the order of the plan with one space between them. When the default
  user names no user of the plan, \<open>P_USER\<close> and \<open>P_PASS\<close> are left as they were read;
  every other key is left as it was read; with no user only \<open>P_HOST\<close> is set.
\<close>

theorem addEnvVars_projection:
  "(let P = env_prefix (Name (service s));
        us = Users (Plan (service s));
        d = DefaultUser (Plan (service s));
        bucket = AppName w @ ''_meta'';
        env0 = snd (data_Get_env w bucket ''env'');
        T = project_env (service s) env0
    in
    addEnvVars w s =
      (s, [EvDataGet bucket ''env'', EvDataPut bucket ''env'' (StoredEnvVars T)],
       data_Put w bucket ''env'' (StoredEnvVars T)) \<and>
    P = ToUpper (Replace_dots (Name (service s))) \<and>
    dom T =
      dom env0 \<union> {P @ ''_HOST''} \<union> pass_key P ` set us \<union>
      (if \<exists>u \<in> set us. Username u = d then {P @ ''_USER'', P @ ''_PASS''} else {}) \<union>
      (if us \<noteq> [] then {P @ ''_USERS''} else {}) \<and>
    T (P @ ''_HOST'') = Some (InternalIP (service s)) \<and>
    (\<forall>u \<in> set us. T (pass_key P u) =
       Some (Password (last (filter (\<lambda>v. pass_key P v = pass_key P u) us)))) \<and>
    ((\<exists>u \<in> set us. Username u = d) \<longrightarrow>
       T (P @ ''_USER'') = Some d \<and>
       T (P @ ''_PASS'') = Some (Password (last (filter (\<lambda>u. Username u = d) us)))) \<and>
    (\<not> (\<exists>u \<in> set us. Username u = d) \<longrightarrow>
       T (P @ ''_USER'') = env0 (P @ ''_USER'') \<and> T (P @ ''_PASS'') = env0 (P @ ''_PASS'')) \<and>
    (us \<noteq> [] \<longrightarrow> T (P @ ''_USERS'') = Some (Join (map Username us) '' '')) \<and>
    (us = [] \<longrightarrow> T = env0(P @ ''_HOST'' \<mapsto> InternalIP (service s))) \<and>
    (\<forall>k. k \<notin> {P @ ''_HOST'', P @ ''_USER'', P @ ''_PASS'', P @ ''_USERS''} \<union> pass_key P ` set us \<longrightarrow>
       T k = env0 k))"
proof -
  let ?svc = "service s"
  let ?P = "env_prefix (Name ?svc)"
  let ?us = "Users (Plan ?svc)"
  let ?d = "DefaultUser (Plan ?svc)"
  let ?env0 = "snd (data_Get_env w (AppName w @ ''_meta'') ''env'')"
  let ?T = "project_env ?svc ?env0"
  have img: "\<And>k. k \<in> pass_key ?P ` set ?us \<longleftrightarrow> (\<exists>u \<in> set ?us. pass_key ?P u = k)"
    by auto
  have a: "addEnvVars w s =
      (s, [EvDataGet (AppName w @ ''_meta'') ''env'',
           EvDataPut (AppName w @ ''_meta'') ''env'' (StoredEnvVars ?T)],
       data_Put w (AppName w @ ''_meta'') ''env'' (StoredEnvVars ?T))"
    by (rule addEnvVars_unfold)
  have pfx: "?P = ToUpper (Replace_dots (Name ?svc))"
    by (simp add: env_prefix_def)
  have d: "dom ?T =
      dom ?env0 \<union> {?P @ ''_HOST''} \<union> pass_key ?P ` set ?us \<union>
      (if \<exists>u \<in> set ?us. Username u = ?d then {?P @ ''_USER'', ?P @ ''_PASS''} else {}) \<union>
      (if ?us \<noteq> [] then {?P @ ''_USERS''} else {})"
    by (rule project_env_dom)
  have h: "?T (?P @ ''_HOST'') = Some (InternalIP ?svc)"
    by (simp add: project_env_apply Let_def)
  have p: "\<forall>u \<in> set ?us. ?T (pass_key ?P u) =
       Some (Password (last (filter (\<lambda>v. pass_key ?P v = pass_key ?P u) ?us)))"
  proof
    fix u assume "u \<in> set ?us"
    then have "\<exists>v \<in> set ?us. pass_key ?P v = pass_key ?P u" by blast
    then show "?T (pass_key ?P u) =
       Some (Password (last (filter (\<lambda>v. pass_key ?P v = pass_key ?P u) ?us)))"
      by (simp add: project_env_apply Let_def)
  qed
  have u: "(\<exists>u \<in> set ?us. Username u = ?d) \<longrightarrow>
       ?T (?P @ ''_USER'') = Some ?d \<and>
       ?T (?P @ ''_PASS'') = Some (Password (last (filter (\<lambda>u. Username u = ?d) ?us)))"
    by (simp add: project_env_apply Let_def)
  have n: "\<not> (\<exists>u \<in> set ?us. Username u = ?d) \<longrightarrow>
       ?T (?P @ ''_USER'') = ?env0 (?P @ ''_USER'') \<and>
       ?T (?P @ ''_PASS'') = ?env0 (?P @ ''_PASS'')"
    by (simp add: project_env_apply Let_def)
  have l: "?us \<noteq> [] \<longrightarrow> ?T (?P @ ''_USERS'') = Some (Join (map Username ?us) '' '')"
    by (simp add: project_env_apply Let_def)
  have e: "?us = [] \<longrightarrow> ?T = ?env0(?P @ ''_HOST'' \<mapsto> InternalIP ?svc)"
    by (simp add: project_env_unfold)
  have o: "\<forall>k. k \<notin> {?P @ ''_HOST'', ?P @ ''_USER'', ?P @ ''_PASS'', ?P @ ''_USERS''} \<union>
                   pass_key ?P ` set ?us \<longrightarrow> ?T k = ?env0 k"
  proof (intro allI impI)
    fix k
    assume "k \<notin> {?P @ ''_HOST'', ?P @ ''_USER'', ?P @ ''_PASS'', ?P @ ''_USERS''} \<union>
                   pass_key ?P ` set ?us"
    then have "k \<noteq> ?P @ ''_HOST''" "k \<noteq> ?P @ ''_USER''" "k \<noteq> ?P @ ''_PASS''"
      "k \<noteq> ?P @ ''_USERS''" "\<not> (\<exists>u \<in> set ?us. pass_key ?P u = k)"
      unfolding img [symmetric] by simp_all
    then show "?T k = ?env0 k"
      by (simp add: project_env_apply Let_def)
  qed
  from a pfx d h p u n l e o show ?thesis unfolding Let_def by (intro conjI)
qed


theorem addEnvVars_projection_witness:
  "addEnvVars world_ok (saga_of (service_of [user_alice, user_bob] ''alice'')) =
     (saga_of (service_of [user_alice, user_bob] ''alice''),
      [EvDataGet ''app_meta'' ''env'',
       EvDataPut ''app_meta'' ''env''
         (StoredEnvVars (project_env (service_of [user_alice, user_bob] ''alice'') Map.empty))],
      None) \<and>
   dom (project_env (service_of [user_alice, user_bob] ''alice'') Map.empty) =
     {''DATA_DB_HOST'', ''DATA_DB_ALICE_PASS'', ''DATA_DB_BOB_PASS'', ''DATA_DB_USER'',
      ''DATA_DB_PASS'', ''DATA_DB_USERS''} \<and>
   project_env (service_of [user_alice, user_bob] ''alice'') Map.empty ''DATA_DB_HOST'' =
     Some ''192.168.0.2'' \<and>
   project_env (service_of [user_alice, user_bob] ''alice'') Map.empty ''DATA_DB_ALICE_PASS'' =
     Some ''p1'' \<and>
   project_env (service_of [user_alice, user_bob] ''alice'') Map.empty ''DATA_DB_BOB_PASS'' =
     Some ''p2'' \<and>
   project_env (service_of [user_alice, user_bob] ''alice'') Map.empty ''DATA_DB_USER'' =
     Some ''alice'' \<and>
   project_env (service_of [user_alice, user_bob] ''alice'') Map.empty ''DATA_DB_PASS'' =
     Some ''p1'' \<and>
   project_env (service_of [user_alice, user_bob] ''alice'') Map.empty ''DATA_DB_USERS'' =
     Some ''alice bob'' \<and>
   project_env (service_of [] []) Map.empty = [''DATA_DB_HOST'' \<mapsto> ''192.168.0.2'']"
proof -
  let ?svc = "service_of [user_alice, user_bob] ''alice''"
  have w: "AppName world_ok @ ''_meta'' = ''app_meta''"
    "snd (data_Get_env world_ok ''app_meta'' ''env'') = Map.empty"
    "data_Put world_ok ''app_meta'' ''env'' = (\<lambda>v. None)"
    by (simp_all add: world_ok_def)
  have svc: "service (saga_of ?svc) = ?svc" "service (saga_of (service_of [] [])) = service_of [] []"
    by (simp_all add: saga_of_def)
  have names: "env_prefix (Name ?svc) = ''DATA_DB''" "env_prefix (Name (service_of [] [])) = ''DATA_DB''"
    "Users (Plan ?svc) = [user_alice, user_bob]" "DefaultUser (Plan ?svc) = ''alice''"
    "Users (Plan (service_of [] [])) = []" "InternalIP ?svc = ''192.168.0.2''"
    "InternalIP (service_of [] []) = ''192.168.0.2''"
    "pass_key ''DATA_DB'' user_alice = ''DATA_DB_ALICE_PASS''"
    "pass_key ''DATA_DB'' user_bob = ''DATA_DB_BOB_PASS''"
    "Username user_alice = ''alice''" "Username user_bob = ''bob''"
    "Password user_alice = ''p1''" "Password user_bob = ''p2''"
    by (simp_all add: env_sample_defs)
  note inst = addEnvVars_projection [where w = world_ok and s = "saga_of ?svc", unfolded Let_def w svc names]
  note inst0 = addEnvVars_projection [where w = world_ok and s = "saga_of (service_of [] [])",
      unfolded Let_def w svc names]
  have run: "addEnvVars world_ok (saga_of ?svc) =
     (saga_of ?svc,
      [EvDataGet ''app_meta'' ''env'',
       EvDataPut ''app_meta'' ''env'' (StoredEnvVars (project_env ?svc Map.empty))],
      None)"
    using inst by blast
  have d: "dom (project_env ?svc Map.empty) =
     {''DATA_DB_HOST'', ''DATA_DB_ALICE_PASS'', ''DATA_DB_BOB_PASS'', ''DATA_DB_USER'',
      ''DATA_DB_PASS'', ''DATA_DB_USERS''}"
    using inst by (auto simp: names)
  have vals: "project_env ?svc Map.empty ''DATA_DB_HOST'' = Some ''192.168.0.2''"
    "project_env ?svc Map.empty ''DATA_DB_ALICE_PASS'' = Some ''p1''"
    "project_env ?svc Map.empty ''DATA_DB_BOB_PASS'' = Some ''p2''"
    "project_env ?svc Map.empty ''DATA_DB_USER'' = Some ''alice''"
    "project_env ?svc Map.empty ''DATA_DB_PASS'' = Some ''p1''"
    "project_env ?svc Map.empty ''DATA_DB_USERS'' = Some ''alice bob''"
    using inst by (simp_all add: names)
  have none: "project_env (service_of [] []) Map.empty = [''DATA_DB_HOST'' \<mapsto> ''192.168.0.2'']"
    using inst0 by simp
  from run d vals none show ?thesis by (intro conjI)
qed

text \<open>
  The claim C6 as the specification words it sets \<open>P_USER\<close> and \<open>P_PASS\<close> whenever a
  default user is declared. For the plan with the one user \<^verbatim>\<open>alice\<close> and the default
  user \<^verbatim>\<open>bob\<close>, the table that \<^verbatim>\<open>addEnvVars\<close> puts has neither key.
\<close>

theorem addEnvVars_declared_default_counterexample:
  "DefaultUser (Plan (service_of [user_alice] ''bob'')) = ''bob'' \<and>
   addEnvVars world_ok (saga_of (service_of [user_alice] ''bob'')) =
     (saga_of (service_of [user_alice] ''bob''),
      [EvDataGet ''app_meta'' ''env'',
       EvDataPut ''app_meta'' ''env''
         (StoredEnvVars [''DATA_DB_HOST'' \<mapsto> ''192.168.0.2'', ''DATA_DB_ALICE_PASS'' \<mapsto> ''p1'',
          ''DATA_DB_USERS'' \<mapsto> ''alice''])],
      None) \<and>
   [''DATA_DB_HOST'' \<mapsto> ''192.168.0.2'', ''DATA_DB_ALICE_PASS'' \<mapsto> ''p1'',
          ''DATA_DB_USERS'' \<mapsto> ''alice''] ''DATA_DB_USER'' = None \<and>
   [''DATA_DB_HOST'' \<mapsto> ''192.168.0.2'', ''DATA_DB_ALICE_PASS'' \<mapsto> ''p1'',
          ''DATA_DB_USERS'' \<mapsto> ''alice''] ''DATA_DB_PASS'' = None"
  by (simp add: addEnvVars_def project_env_def Let_def env_sample_defs world_ok_def)

text \<open>
  Claim C10. In the table \<open>T\<close> that \<^verbatim>\<open>addEnvVars\<close> puts, \<open>P_USER\<close> and \<open>P_PASS\<close> are
  written if and only if a user of the plan has the default user as its username:
  then \<open>P_USER\<close> is that name and \<open>P_PASS\<close> the password of the last such user of the
  plan; otherwise both keys are as they were read, so that a table that did not hold
  them does not hold them afterwards, also for a default user that is not empty.
\<close>

theorem addEnvVars_default_user:
  "(let P = env_prefix (Name (service s));
        us = Users (Plan (service s));
        d = DefaultUser (Plan (service s));
        bucket = AppName w @ ''_meta'';
        env0 = snd (data_Get_env w bucket ''env'');
        T = project_env (service s) env0
    in
    fst (snd (addEnvVars w s)) =
      [EvDataGet bucket ''env'', EvDataPut bucket ''env'' (StoredEnvVars T)] \<and>
    T (P @ ''_USER'') = (if \<exists>u \<in> set us. Username u = d then Some d else env0 (P @ ''_USER'')) \<and>
    T (P @ ''_PASS'') =
      (if \<exists>u \<in> set us. Username u = d
       then Some (Password (last (filter (\<lambda>u. Username u = d) us)))
       else env0 (P @ ''_PASS'')) \<and>
    (env0 (P @ ''_USER'') = None \<and> env0 (P @ ''_PASS'') = None \<longrightarrow>
       (P @ ''_USER'' \<in> dom T \<longleftrightarrow> (\<exists>u \<in> set us. Username u = d)) \<and>
       (P @ ''_PASS'' \<in> dom T \<longleftrightarrow> (\<exists>u \<in> set us. Username u = d))))"
  by (simp add: addEnvVars_unfold project_env_apply Let_def dom_def)

theorem addEnvVars_default_user_witness:
  "project_env (service_of [user_alice, user_bob, user_alice2] ''alice'') Map.empty ''DATA_DB_USER'' =
     Some ''alice'' \<and>
   project_env (service_of [user_alice, user_bob, user_alice2] ''alice'') Map.empty ''DATA_DB_PASS'' =
     Some ''p3'' \<and>
   DefaultUser (Plan (service_of [user_alice] ''bob'')) = ''bob'' \<and>
   ''DATA_DB_USER'' \<notin> dom (project_env (service_of [user_alice] ''bob'') Map.empty) \<and>
   ''DATA_DB_PASS'' \<notin> dom (project_env (service_of [user_alice] ''bob'') Map.empty)"
proof -
  let ?dup = "service_of [user_alice, user_bob, user_alice2] ''alice''"
  let ?bob = "service_of [user_alice] ''bob''"
  have w: "AppName world_ok @ ''_meta'' = ''app_meta''"
    "snd (data_Get_env world_ok ''app_meta'' ''env'') = Map.empty"
    by (simp_all add: world_ok_def)
  have svc: "service (saga_of ?dup) = ?dup" "service (saga_of ?bob) = ?bob"
    by (simp_all add: saga_of_def)
  have names: "env_prefix (Name ?dup) = ''DATA_DB''" "env_prefix (Name ?bob) = ''DATA_DB''"
    "Users (Plan ?dup) = [user_alice, user_bob, user_alice2]" "DefaultUser (Plan ?dup) = ''alice''"
    "Users (Plan ?bob) = [user_alice]" "DefaultUser (Plan ?bob) = ''bob''"
    "Username user_alice = ''alice''" "Username user_bob = ''bob''"
    "Username user_alice2 = ''alice''" "Password user_alice2 = ''p3''"
    by (simp_all add: env_sample_defs)
  have a: "project_env ?dup Map.empty ''DATA_DB_USER'' = Some ''alice'' \<and>
      project_env ?dup Map.empty ''DATA_DB_PASS'' = Some ''p3''"
    using addEnvVars_default_user [where w = world_ok and s = "saga_of ?dup", unfolded Let_def w svc names]
    by (simp add: names)
  have b: "''DATA_DB_USER'' \<notin> dom (project_env ?bob Map.empty) \<and>
      ''DATA_DB_PASS'' \<notin> dom (project_env ?bob Map.empty)"
    using addEnvVars_default_user [where w = world_ok and s = "saga_of ?bob", unfolded Let_def w svc names]
    by (simp add: names)
  from a b names(6) show ?thesis by blast
qed

end
